theory Spec2Isabelle
  imports Main "HOL-Library.Word"
begin

section \<open>The host runtime, as far as the service uses it\<close>

text \<open>
  The service is a TypeScript class. Its strings are modelled as \<open>string\<close> (lists of
  8-bit characters), a \<open>Buffer\<close> as a list of bytes, a JavaScript number that can be
  \<open>NaN\<close> as \<open>int option\<close> (\<open>None\<close> is \<open>NaN\<close>), and \<open>undefined\<close> as \<open>None\<close>.
  A character is a code point below 256: \<open>toLowerCase\<close> folds the letters among
  them, and \<open>toUpperCase\<close>, which the service applies to hexadecimal text only,
  changes the ASCII letters only. Logging never changes the control flow and is left
  out. A promise is the pair of its outcome and the state it leaves,
  and the operations of one call run one after the other.
\<close>

type_synonym byte = "8 word"

definition is_digit :: "char \<Rightarrow> bool" where
  "is_digit c = (48 \<le> (of_char c :: nat) \<and> (of_char c :: nat) \<le> 57)"

definition digit_val :: "char \<Rightarrow> int" where
  "digit_val c = int (of_char c) - 48"

definition toUpperCase_char :: "char \<Rightarrow> char" where
  "toUpperCase_char c =
     (if 97 \<le> (of_char c :: nat) \<and> (of_char c :: nat) \<le> 122 then char_of ((of_char c :: nat) - 32) else c)"

definition toLowerCase_char :: "char \<Rightarrow> char" where
  "toLowerCase_char c =
     (let n = (of_char c :: nat) in
      if (65 \<le> n \<and> n \<le> 90) \<or> (192 \<le> n \<and> n \<le> 222 \<and> n \<noteq> 215) then char_of (n + 32) else c)"

definition toUpperCase :: "string \<Rightarrow> string" where
  "toUpperCase s = map toUpperCase_char s"

definition toLowerCase :: "string \<Rightarrow> string" where
  "toLowerCase s = map toLowerCase_char s"

subsection \<open>\<open>Buffer.from(s, 'base64')\<close> and \<open>toString('hex')\<close>\<close>

text \<open>
  Node decodes base64 leniently: a character outside the alphabet (the URL-safe
  \<open>-\<close> and \<open>_\<close> belong to it) is skipped, the first \<open>=\<close> ends the input, and an
  incomplete last group gives the bytes its sextets cover.
\<close>

definition unbase64 :: "char \<Rightarrow> nat option" where
  "unbase64 c =
     (let n = (of_char c :: nat) in
      if 65 \<le> n \<and> n \<le> 90 then Some (n - 65)
      else if 97 \<le> n \<and> n \<le> 122 then Some (n - 71)
      else if 48 \<le> n \<and> n \<le> 57 then Some (n + 4)
      else if n = 43 \<or> n = 45 then Some 62
      else if n = 47 \<or> n = 95 then Some 63
      else None)"

fun sextets :: "string \<Rightarrow> nat list" where
  "sextets [] = []"
| "sextets (c # cs) =
     (if c = CHR ''='' then []
      else case unbase64 c of None \<Rightarrow> sextets cs | Some v \<Rightarrow> v # sextets cs)"

fun decode_groups :: "nat list \<Rightarrow> byte list" where
  "decode_groups (a # b # c # d # rest) =
     of_nat (a * 4 + b div 16) # of_nat ((b mod 16) * 16 + c div 4) # of_nat ((c mod 4) * 64 + d)
       # decode_groups rest"
| "decode_groups [a, b, c] = [of_nat (a * 4 + b div 16), of_nat ((b mod 16) * 16 + c div 4)]"
| "decode_groups [a, b] = [of_nat (a * 4 + b div 16)]"
| "decode_groups _ = []"

definition Buffer_from_base64 :: "string \<Rightarrow> byte list" where
  "Buffer_from_base64 s = decode_groups (sextets s)"

definition hex_digit :: "nat \<Rightarrow> char" where
  "hex_digit n = (if n < 10 then char_of (48 + n) else char_of (87 + n))"

definition hex_byte :: "byte \<Rightarrow> string" where
  "hex_byte b = [hex_digit (unat b div 16), hex_digit (unat b mod 16)]"

definition toString_hex :: "byte list \<Rightarrow> string" where
  "toString_hex bs = concat (map hex_byte bs)"

section \<open>AttributeNormalizer\<close>

subsection \<open>\<open>GUIDtoString\<close>\<close>

text \<open>
  The regular expression of \<open>GUIDtoString\<close> has sixteen groups of two characters
  between \<open>^\<close> and \<open>$\<close>. A dot matches every character but a line terminator, and
  \<open>replace\<close> returns its subject unchanged where the expression does not match.
\<close>

definition line_terminator :: "char \<Rightarrow> bool" where
  "line_terminator c = ((of_char c :: nat) = 10 \<or> (of_char c :: nat) = 13)"

definition pair_at :: "string \<Rightarrow> nat \<Rightarrow> string" where
  "pair_at h n = take 2 (drop (2 * (n - 1)) h)"

definition replace_GUID :: "string \<Rightarrow> string" where
  "replace_GUID h =
     (if length h = 32 \<and> list_all (\<lambda>c. \<not> line_terminator c) h
      then pair_at h 4 @ pair_at h 3 @ pair_at h 2 @ pair_at h 1 @ ''-''
         @ pair_at h 6 @ pair_at h 5 @ ''-''
         @ pair_at h 8 @ pair_at h 7 @ ''-''
         @ pair_at h 10 @ pair_at h 9 @ ''-''
         @ pair_at h 16 @ pair_at h 15 @ pair_at h 14 @ pair_at h 13 @ pair_at h 12 @ pair_at h 11
      else h)"

definition GUIDtoString :: "string \<Rightarrow> string" where
  "GUIDtoString objectGUID =
     (if objectGUID = [] then []
      else toUpperCase (replace_GUID (toString_hex (Buffer_from_base64 objectGUID))))"

subsection \<open>\<open>fromLDAPString\<close>\<close>

text \<open>\<open>string.match(/\d\d/g)\<close>: the pairs of digits, left to right, without overlap.\<close>

fun match_digit_pairs :: "string \<Rightarrow> string list" where
  "match_digit_pairs (a # b # rest) =
     (if is_digit a \<and> is_digit b then [a, b] # match_digit_pairs rest
      else match_digit_pairs (b # rest))"
| "match_digit_pairs _ = []"

text \<open>
  \<open>b[i]\<close> is \<open>undefined\<close> past the end of the array; string concatenation and
  \<open>parseInt\<close> turn \<open>undefined\<close> into the text \<open>undefined\<close>.
\<close>

definition index :: "'a list \<Rightarrow> nat \<Rightarrow> 'a option" where
  "index xs i = (if i < length xs then Some (xs ! i) else None)"

definition ToString_opt :: "string option \<Rightarrow> string" where
  "ToString_opt v = (case v of None \<Rightarrow> ''undefined'' | Some s \<Rightarrow> s)"

definition is_space :: "char \<Rightarrow> bool" where
  "is_space c = ((of_char c :: nat) = 32 \<or> (9 \<le> (of_char c :: nat) \<and> (of_char c :: nat) \<le> 13))"

definition digits_value :: "string \<Rightarrow> int" where
  "digits_value ds = foldl (\<lambda>acc c. acc * 10 + digit_val c) 0 ds"

definition parseInt10 :: "string \<Rightarrow> int option" where
  "parseInt10 s =
     (let t = dropWhile is_space s;
          neg = (t \<noteq> [] \<and> hd t = CHR ''-'');
          u = (if t \<noteq> [] \<and> (hd t = CHR ''-'' \<or> hd t = CHR ''+'') then tl t else t);
          ds = takeWhile is_digit u
      in if ds = [] then None else Some (if neg then - digits_value ds else digits_value ds))"

text \<open>
  \<open>Date.UTC\<close> after ECMAScript: a year from 0 to 99 means 1900 plus that year, months
  count from 0 and overflow into the years, \<open>NaN\<close> anywhere gives \<open>NaN\<close>, and a time
  value beyond 8.64e15 milliseconds is clipped to \<open>NaN\<close>.
\<close>

definition days_from_civil :: "int \<Rightarrow> int \<Rightarrow> int \<Rightarrow> int" where
  "days_from_civil y m d =
     (let y' = (if m \<le> 2 then y - 1 else y);
          era = y' div 400;
          yoe = y' - era * 400;
          doy = (153 * (if m > 2 then m - 3 else m + 9) + 2) div 5 + d - 1;
          doe = yoe * 365 + yoe div 4 - yoe div 100 + doy
      in era * 146097 + doe - 719468)"

definition MakeDay :: "int \<Rightarrow> int \<Rightarrow> int \<Rightarrow> int" where
  "MakeDay year month date = days_from_civil (year + month div 12) (month mod 12 + 1) 1 + date - 1"

definition MakeTime :: "int \<Rightarrow> int \<Rightarrow> int \<Rightarrow> int \<Rightarrow> int" where
  "MakeTime hour minute sec ms = hour * 3600000 + minute * 60000 + sec * 1000 + ms"

definition TimeClip :: "int option \<Rightarrow> int option" where
  "TimeClip t = (case t of None \<Rightarrow> None | Some v \<Rightarrow> if \<bar>v\<bar> > 8640000000000000 then None else Some v)"

definition Date_UTC :: "int option \<Rightarrow> int option \<Rightarrow> int option \<Rightarrow> int option \<Rightarrow> int option \<Rightarrow> int option \<Rightarrow> int option" where
  "Date_UTC year month date hours minutes seconds =
     (case (year, month, date, hours, minutes, seconds) of
        (Some y, Some m, Some dt, Some h, Some mi, Some s) \<Rightarrow>
          TimeClip (Some (MakeDay (if 0 \<le> y \<and> y \<le> 99 then 1900 + y else y) m dt * 86400000 + MakeTime h mi s 0))
      | _ \<Rightarrow> None)"

text \<open>A \<open>Date\<close> object holds a time value in milliseconds since the epoch, or \<open>NaN\<close>.\<close>

datatype Date = Date "int option"

definition new_Date :: "int option \<Rightarrow> Date" where
  "new_Date tv = Date (TimeClip tv)"

definition minus1 :: "int option \<Rightarrow> int option" where
  "minus1 n = map_option (\<lambda>v. v - 1) n"

definition fromLDAPString :: "string \<Rightarrow> Date option" where
  "fromLDAPString string =
     (let b = match_digit_pairs string in
      if b = [] then None
      else Some (new_Date (Date_UTC
        (parseInt10 (ToString_opt (index b 0) @ ToString_opt (index b 1)))
        (minus1 (parseInt10 (ToString_opt (index b 2))))
        (parseInt10 (ToString_opt (index b 3)))
        (parseInt10 (ToString_opt (index b 4)))
        (parseInt10 (ToString_opt (index b 5)))
        (parseInt10 (ToString_opt (index b 6))))))"

subsection \<open>Search entries\<close>

text \<open>
  A search entry object keeps its properties in insertion order. A property holds a
  string, a \<open>Date\<close> or \<open>null\<close> (the timestamps), or the list of group entries.
\<close>

datatype attr_value = AString string | ADate "Date option" | AGroups "(string \<times> attr_value) list list"

type_synonym SearchEntryObject = "(string \<times> attr_value) list"

definition get_prop :: "SearchEntryObject \<Rightarrow> string \<Rightarrow> attr_value option" where
  "get_prop obj k = map_of obj k"

fun set_prop :: "string \<Rightarrow> attr_value \<Rightarrow> SearchEntryObject \<Rightarrow> SearchEntryObject" where
  "set_prop k v [] = [(k, v)]"
| "set_prop k v (p # ps) = (if fst p = k then (k, v) # ps else p # set_prop k v ps)"

fun truthy :: "attr_value option \<Rightarrow> bool" where
  "truthy None = False"
| "truthy (Some (AString s)) = (s \<noteq> [])"
| "truthy (Some (ADate d)) = (d \<noteq> None)"
| "truthy (Some (AGroups gs)) = True"

text \<open>What the directory client delivers for one entry: string attributes and the raw payload.\<close>

record SearchEntry =
  object :: "(string \<times> string) list"
  raw :: string

definition endsWith :: "string \<Rightarrow> string \<Rightarrow> bool" where
  "endsWith s suffix = (length suffix \<le> length s \<and> drop (length s - length suffix) s = suffix)"

definition attribute_key :: "string \<Rightarrow> string" where
  "attribute_key k = (if endsWith k '';binary'' then take (length k - 7) k else k)"

definition normalize_attribute :: "SearchEntryObject \<Rightarrow> string \<times> string \<Rightarrow> SearchEntryObject" where
  "normalize_attribute acc kv =
     (let key = attribute_key (fst kv) in
      if key = ''objectGUID'' then set_prop key (AString (GUIDtoString (snd kv))) acc
      else if key = ''dn'' then set_prop key (AString (toLowerCase (snd kv))) acc
      else if key = ''sAMAccountName'' then set_prop key (AString (toLowerCase (snd kv))) acc
      else if key = ''whenCreated'' \<or> key = ''whenChanged'' then set_prop key (ADate (fromLDAPString (snd kv))) acc
      else set_prop key (AString (snd kv)) acc)"

section \<open>Filter sanitization and template substitution\<close>

definition replace_char :: "char \<Rightarrow> string \<Rightarrow> string \<Rightarrow> string" where
  "replace_char c r s = concat (map (\<lambda>x. if x = c then r else [x]) s)"

text \<open>The six global replacements of \<open>sanitizeInput\<close>, in the order of the source.\<close>

definition sanitizeInput :: "string \<Rightarrow> string" where
  "sanitizeInput input =
     replace_char CHR ''/'' (CHR 0x5C # ''2f'')
       (replace_char CHR 0x00 (CHR 0x5C # ''00'')
         (replace_char CHR 0x5C (CHR 0x5C # ''5c'')
           (replace_char CHR '')'' (CHR 0x5C # ''29'')
             (replace_char CHR ''('' (CHR 0x5C # ''28'')
               (replace_char CHR ''*'' (CHR 0x5C # ''2a'') input)))))"

text \<open>
  \<open>String.prototype.replace\<close> with a replacement string expands the patterns of the
  replacement: \<open>$$\<close> is a dollar sign, \<open>$&\<close> the matched text, a dollar sign and a
  backquote the text before the match, a dollar sign and a quote the text after it.
  The expression \<open>/{{username}}/g\<close> has no group, so every other dollar sign stands
  for itself.
\<close>

fun GetSubstitution :: "string \<Rightarrow> string \<Rightarrow> string \<Rightarrow> string \<Rightarrow> string" where
  "GetSubstitution matched pre post (c # c' # rest) =
     (if c = CHR ''$'' \<and> c' = CHR ''$'' then CHR ''$'' # GetSubstitution matched pre post rest
      else if c = CHR ''$'' \<and> c' = CHR ''&'' then matched @ GetSubstitution matched pre post rest
      else if c = CHR ''$'' \<and> c' = CHR 0x60 then pre @ GetSubstitution matched pre post rest
      else if c = CHR ''$'' \<and> c' = CHR 0x27 then post @ GetSubstitution matched pre post rest
      else c # GetSubstitution matched pre post (c' # rest))"
| "GetSubstitution matched pre post cs = cs"

function replace_from :: "string \<Rightarrow> string \<Rightarrow> string \<Rightarrow> string \<Rightarrow> string" where
  "replace_from pat r pre [] = []"
| "replace_from pat r pre (c # cs) =
     (if pat \<noteq> [] \<and> take (length pat) (c # cs) = pat
      then GetSubstitution pat pre (drop (length pat) (c # cs)) r
             @ replace_from pat r (pre @ pat) (drop (length pat) (c # cs))
      else c # replace_from pat r (pre @ [c]) cs)"
  by pat_completeness auto
termination
  by (relation "measure (\<lambda>(pat, r, pre, s). length s)") auto

definition replace_all :: "string \<Rightarrow> string \<Rightarrow> string \<Rightarrow> string" where
  "replace_all pat r s = replace_from pat r [] s"

section \<open>The service\<close>

subsection \<open>Errors, options, collaborators\<close>

text \<open>
  A rejected promise or a thrown exception is \<open>Inl\<close> of an error. \<open>Error\<close> carries the
  message of a plain JavaScript \<open>Error\<close>, \<open>NoSuchObjectError\<close> is the one of the
  directory client, and \<open>LdapError\<close> names any other error the client reports.
\<close>

datatype error = NoSuchObjectError | Error string | LdapError string

text \<open>The search options handed to the client; the time and size limits are passed
  through unchanged and left out.\<close>

record SearchOptions =
  search_filter :: "string option"
  scope :: "string option"
  attributes :: "string list"

text \<open>A change of \<open>modify\<close>: the values are an array, or the text the redaction puts there.\<close>

datatype vals = VArray "string list" | VString string

record Modification =
  type :: string
  vals :: vals

record Change =
  operation :: string
  modification :: Modification

text \<open>
  The options of the module. The constructor turns a group filter given as a template
  into a function of the user; the model holds that function.
\<close>

record LdapModuleOptions =
  bindDN :: "string option"
  bindCredentials :: string
  reconnect :: bool
  searchBase :: string
  searchFilter :: string
  searchScope :: "string option"
  searchAttributes :: "string list option"
  bindProperty :: "string option"
  groupSearchBase :: "string option"
  groupSearchFilter :: "(SearchEntryObject \<Rightarrow> string) option"
  groupSearchScope :: "string option"
  groupSearchAttributes :: "string list option"
  includeRaw :: bool

text \<open>
  What the code takes from outside the repository: the bcrypt functions, the text of a
  \<open>Date\<close> in the local time zone, and the attribute list \<open>ldapADattributes\<close> of the
  interface file.
\<close>

record externals =
  hashSync :: "string \<Rightarrow> string \<Rightarrow> string"
  compareSync :: "string \<Rightarrow> string \<Rightarrow> bool"
  Date_toString :: "Date \<Rightarrow> string"
  ldapADattributes :: "string list"

text \<open>
  The directory server behind the two clients. A search answers with an error, with
  something that is not a result object, or with a stream of entries that ends with an
  error or with a status.
\<close>

datatype stream_end = StreamError error | End nat

datatype search_response = SearchError error | NoSearchResult | SearchStream "SearchEntry list" stream_end

record directory =
  admin_bind :: "string \<Rightarrow> string \<Rightarrow> error option"
  admin_search :: "string \<Rightarrow> SearchOptions \<Rightarrow> search_response"
  admin_modify :: "string \<Rightarrow> Change list \<Rightarrow> error option"
  user_bind :: "attr_value option \<Rightarrow> string \<Rightarrow> error option"
  user_modify :: "string \<Rightarrow> Change list \<Rightarrow> error option"

subsection \<open>State: the bound flag, the listeners, the cache\<close>

record LDAPCache =
  user :: SearchEntryObject
  password :: string

definition LDAP_PASSWORD_NULL :: string where
  "LDAP_PASSWORD_NULL = ''nCN34c23~_@093429!*%3w32-23787''"

text \<open>Every call to the cache store and to the directory is recorded, in order.\<close>

datatype event =
    Cache_get string
  | Cache_set string LDAPCache
  | Cache_del string
  | Admin_bind string string
  | Admin_search string SearchOptions
  | Admin_modify string "Change list"
  | User_bind "attr_value option" string
  | User_modify string "Change list"

text \<open>
  \<open>userCache\<close> is \<open>None\<close> when no cache is configured. \<open>onceInstallReconnectListener\<close>
  says that the one-time handler of the constructor is still registered, and
  \<open>connectListeners\<close> counts the \<open>connect\<close> listeners of the admin client. Entries do
  not expire in the model.
\<close>

record LdapService =
  adminBound :: bool
  userCache :: "(string \<rightharpoonup> LDAPCache) option"
  salt :: string
  onceInstallReconnectListener :: bool
  connectListeners :: nat
  trace :: "event list"

definition record_event :: "event \<Rightarrow> LdapService \<Rightarrow> LdapService" where
  "record_event e s = s\<lparr>trace := trace s @ [e]\<rparr>"

definition cache_get :: "string \<Rightarrow> LdapService \<Rightarrow> LDAPCache option \<times> LdapService" where
  "cache_get key s =
     ((case userCache s of None \<Rightarrow> None | Some c \<Rightarrow> c key), record_event (Cache_get key) s)"

definition cache_set :: "string \<Rightarrow> LDAPCache \<Rightarrow> LdapService \<Rightarrow> LdapService" where
  "cache_set key v s =
     record_event (Cache_set key v) (s\<lparr>userCache := map_option (\<lambda>c. c(key \<mapsto> v)) (userCache s)\<rparr>)"

definition cache_del :: "string \<Rightarrow> LdapService \<Rightarrow> LdapService" where
  "cache_del key s =
     record_event (Cache_del key) (s\<lparr>userCache := map_option (\<lambda>c. c(key := None)) (userCache s)\<rparr>)"

subsection \<open>SessionManager: \<open>onConnectAdmin\<close> and \<open>adminBind\<close>\<close>

definition emit_installReconnectListener :: "LdapService \<Rightarrow> LdapService" where
  "emit_installReconnectListener s =
     (if onceInstallReconnectListener s
      then s\<lparr>onceInstallReconnectListener := False, connectListeners := connectListeners s + 1\<rparr>
      else s)"

definition onConnectAdmin :: "LdapModuleOptions \<Rightarrow> directory \<Rightarrow> LdapService \<Rightarrow> (error + bool) \<times> LdapService" where
  "onConnectAdmin opts d s =
     (case bindDN opts of
        None \<Rightarrow> (Inl (Error ''bindDN is undefined''), s\<lparr>adminBound := False\<rparr>)
      | Some dn \<Rightarrow>
          (let s1 = record_event (Admin_bind dn (bindCredentials opts)) s in
           case admin_bind d dn (bindCredentials opts) of
             Some e \<Rightarrow> (Inl e, s1\<lparr>adminBound := False\<rparr>)
           | None \<Rightarrow>
               (Inr True,
                if reconnect opts then emit_installReconnectListener (s1\<lparr>adminBound := True\<rparr>)
                else s1\<lparr>adminBound := True\<rparr>)))"

definition adminBind :: "LdapModuleOptions \<Rightarrow> directory \<Rightarrow> LdapService \<Rightarrow> (error + bool) \<times> LdapService" where
  "adminBind opts d s = (if adminBound s then (Inr True, s) else onConnectAdmin opts d s)"

text \<open>The handler of the admin client's \<open>error\<close> and \<open>connectTimeout\<close> events.\<close>

definition handleErrorAdmin :: "LdapService \<Rightarrow> LdapService" where
  "handleErrorAdmin s = s\<lparr>adminBound := False\<rparr>"

subsection \<open>LookupService: \<open>search\<close>, \<open>findUser\<close>, \<open>findGroups\<close>, \<open>searchByDN\<close>\<close>

fun show_nat :: "nat \<Rightarrow> string" where
  "show_nat n = (if n < 10 then [char_of (48 + n)] else show_nat (n div 10) @ [char_of (48 + n mod 10)])"

declare show_nat.simps [simp del]

definition searchEntry :: "LdapModuleOptions \<Rightarrow> SearchEntry \<Rightarrow> SearchEntryObject" where
  "searchEntry opts entry =
     (let obj = foldl normalize_attribute [] (object entry) in
      if includeRaw opts then set_prop ''raw'' (AString (raw entry)) obj else obj)"

text \<open>The message of the error for a missing result object ends with a rendering of the
  options, which is left out.\<close>

definition search ::
  "LdapModuleOptions \<Rightarrow> directory \<Rightarrow> string \<Rightarrow> SearchOptions \<Rightarrow> LdapService
     \<Rightarrow> (error + SearchEntryObject list) \<times> LdapService" where
  "search opts d base sopts s =
     (case adminBind opts d s of
        (Inl e, s1) \<Rightarrow> (Inl e, s1)
      | (Inr ok, s1) \<Rightarrow>
          (let s2 = record_event (Admin_search base sopts) s1 in
           case admin_search d base sopts of
             SearchError e \<Rightarrow> (Inl e, s2)
           | NoSearchResult \<Rightarrow> (Inl (Error (''The LDAP server has empty search: '' @ base)), s2)
           | SearchStream entries fin \<Rightarrow>
               (case fin of
                  StreamError e \<Rightarrow> (Inl e, s2)
                | End status \<Rightarrow>
                    if status \<noteq> 0
                    then (Inl (Error (''non-zero status from LDAP search: '' @ show_nat status)), s2)
                    else (Inr (map (searchEntry opts) entries), s2))))"

definition cached_user :: "LDAPCache option \<Rightarrow> SearchEntryObject option" where
  "cached_user cached =
     (case cached of
        None \<Rightarrow> None
      | Some r \<Rightarrow> if truthy (get_prop (user r) ''sAMAccountName'') then Some (user r) else None)"

definition findUser_result :: "string \<Rightarrow> SearchEntryObject list \<Rightarrow> error + SearchEntryObject" where
  "findUser_result username result =
     (case result of
        [] \<Rightarrow> Inl NoSuchObjectError
      | [x] \<Rightarrow> Inr x
      | _ \<Rightarrow> Inl (Error (''unexpected number of matches ('' @ show_nat (length result) @ '') for '' @ [CHR 0x22]
                 @ username @ [CHR 0x22] @ '' username'')))"

definition findUser_options :: "externals \<Rightarrow> LdapModuleOptions \<Rightarrow> string \<Rightarrow> SearchOptions" where
  "findUser_options ext opts username =
     \<lparr>search_filter = Some (replace_all ''{{username}}'' (sanitizeInput username) (searchFilter opts)),
      scope = searchScope opts,
      attributes = (case searchAttributes opts of
                      None \<Rightarrow> ldapADattributes ext
                    | Some a \<Rightarrow> a)\<rparr>"

definition findUser_live ::
  "externals \<Rightarrow> LdapModuleOptions \<Rightarrow> directory \<Rightarrow> string \<Rightarrow> LdapService
     \<Rightarrow> (error + SearchEntryObject) \<times> LdapService" where
  "findUser_live ext opts d username s =
     (case search opts d (searchBase opts) (findUser_options ext opts username) s of
        (Inl e, s1) \<Rightarrow> (Inl e, s1)
      | (Inr result, s1) \<Rightarrow> (findUser_result username result, s1))"

definition findUser ::
  "externals \<Rightarrow> LdapModuleOptions \<Rightarrow> directory \<Rightarrow> string \<Rightarrow> bool \<Rightarrow> LdapService
     \<Rightarrow> (error + SearchEntryObject) \<times> LdapService" where
  "findUser ext opts d username cache s =
     (if username = [] then (Inl (Error ''empty username''), s)
      else if cache \<and> userCache s \<noteq> None
      then (case cache_get username s of
              (cached, s1) \<Rightarrow>
                (case cached_user cached of
                   Some u \<Rightarrow> (Inr u, s1)
                 | None \<Rightarrow> findUser_live ext opts d username s1))
      else findUser_live ext opts d username s)"

definition getGroups_active :: "LdapModuleOptions \<Rightarrow> bool" where
  "getGroups_active opts =
     ((case groupSearchBase opts of None \<Rightarrow> False | Some b \<Rightarrow> b \<noteq> []) \<and> groupSearchFilter opts \<noteq> None)"

definition findGroups ::
  "externals \<Rightarrow> LdapModuleOptions \<Rightarrow> directory \<Rightarrow> SearchEntryObject \<Rightarrow> LdapService
     \<Rightarrow> (error + SearchEntryObject) \<times> LdapService" where
  "findGroups ext opts d u s =
     (let sopts = \<lparr>search_filter = (case groupSearchFilter opts of None \<Rightarrow> None | Some f \<Rightarrow> Some (f u)),
                   scope = groupSearchScope opts,
                   attributes = (case groupSearchAttributes opts of
                                   None \<Rightarrow> ldapADattributes ext
                                 | Some a \<Rightarrow> a)\<rparr>;
          base = (case groupSearchBase opts of
                    None \<Rightarrow> searchBase opts
                  | Some b \<Rightarrow> if b = [] then searchBase opts else b)
      in case search opts d base sopts s of
           (Inl e, s1) \<Rightarrow> (Inl e, s1)
         | (Inr result, s1) \<Rightarrow> (Inr (set_prop ''groups'' (AGroups result) u), s1))"

definition getGroups ::
  "externals \<Rightarrow> LdapModuleOptions \<Rightarrow> directory \<Rightarrow> SearchEntryObject \<Rightarrow> LdapService
     \<Rightarrow> (error + SearchEntryObject) \<times> LdapService" where
  "getGroups ext opts d u s = (if getGroups_active opts then findGroups ext opts d u s else (Inr u, s))"

text \<open>A template literal turns a property into text.\<close>

definition template_text :: "externals \<Rightarrow> attr_value option \<Rightarrow> string" where
  "template_text ext v =
     (case v of
        None \<Rightarrow> ''undefined''
      | Some (AString t) \<Rightarrow> t
      | Some (ADate None) \<Rightarrow> ''null''
      | Some (ADate (Some dt)) \<Rightarrow> Date_toString ext dt
      | Some (AGroups gs) \<Rightarrow> concat (map (\<lambda>g. ''[object Object]'') (take 1 gs))
                                @ concat (map (\<lambda>g. '',[object Object]'') (drop 1 gs)))"

definition searchByDN_result :: "string \<Rightarrow> SearchEntryObject list \<Rightarrow> error + SearchEntryObject" where
  "searchByDN_result userByDN result =
     (case result of
        [] \<Rightarrow> Inl NoSuchObjectError
      | [x] \<Rightarrow> Inr x
      | _ \<Rightarrow> Inl (Error (''unexpected number of matches ('' @ show_nat (length result) @ '') for '' @ [CHR 0x22]
                 @ userByDN @ [CHR 0x22] @ '' user DN'')))"

definition searchByDN_options :: "LdapModuleOptions \<Rightarrow> SearchOptions" where
  "searchByDN_options opts =
     \<lparr>search_filter = None,
      scope = searchScope opts,
      attributes = (case searchAttributes opts of None \<Rightarrow> [''*''] | Some a \<Rightarrow> a)\<rparr>"

definition searchByDN_to_cache :: "externals \<Rightarrow> string \<Rightarrow> SearchEntryObject \<Rightarrow> LdapService \<Rightarrow> LdapService" where
  "searchByDN_to_cache ext cachedID u s =
     (if userCache s \<noteq> None
      then (let s1 = cache_set cachedID \<lparr>user = u, password = LDAP_PASSWORD_NULL\<rparr> s in
            if truthy (get_prop u ''sAMAccountName'')
            then cache_set (''user:'' @ template_text ext (get_prop u ''sAMAccountName''))
                   \<lparr>user = u, password = LDAP_PASSWORD_NULL\<rparr> s1
            else s1)
      else s)"

definition searchByDN_live ::
  "externals \<Rightarrow> LdapModuleOptions \<Rightarrow> directory \<Rightarrow> string \<Rightarrow> LdapService
     \<Rightarrow> (error + SearchEntryObject) \<times> LdapService" where
  "searchByDN_live ext opts d userByDN s =
     (case search opts d userByDN (searchByDN_options opts) s of
        (Inl e, s1) \<Rightarrow> (Inl e, s1)
      | (Inr result, s1) \<Rightarrow>
          (case searchByDN_result userByDN result of
             Inl e \<Rightarrow> (Inl e, s1)
           | Inr u \<Rightarrow> (Inr u, searchByDN_to_cache ext (''dn:'' @ userByDN) u s1)))"

definition searchByDN ::
  "externals \<Rightarrow> LdapModuleOptions \<Rightarrow> directory \<Rightarrow> string \<Rightarrow> bool \<Rightarrow> LdapService
     \<Rightarrow> (error + SearchEntryObject) \<times> LdapService" where
  "searchByDN ext opts d userByDN cache s =
     (if cache \<and> userCache s \<noteq> None
      then (case cache_get (''dn:'' @ userByDN) s of
              (cached, s1) \<Rightarrow>
                (case cached_user cached of
                   Some u \<Rightarrow> (Inr u, s1)
                 | None \<Rightarrow> searchByDN_live ext opts d userByDN s1))
      else searchByDN_live ext opts d userByDN s)"

subsection \<open>\<open>JSON.stringify\<close> of a search entry\<close>

text \<open>
  \<open>authenticate\<close> compares two users by their JSON texts. A valid \<open>Date\<close> is written
  as its ISO text, an invalid one and \<open>null\<close> as \<open>null\<close>.
\<close>

definition pad :: "nat \<Rightarrow> nat \<Rightarrow> string" where
  "pad w n = replicate (w - length (show_nat n)) CHR ''0'' @ show_nat n"

definition civil_from_days :: "int \<Rightarrow> int \<times> int \<times> int" where
  "civil_from_days z0 =
     (let z = z0 + 719468;
          era = z div 146097;
          doe = z - era * 146097;
          yoe = (doe - doe div 1460 + doe div 36524 - doe div 146096) div 365;
          doy = doe - (365 * yoe + yoe div 4 - yoe div 100);
          mp = (5 * doy + 2) div 153;
          dd = doy - (153 * mp + 2) div 5 + 1;
          mm = (if mp < 10 then mp + 3 else mp - 9)
      in ((if mm \<le> 2 then yoe + era * 400 + 1 else yoe + era * 400), mm, dd))"

definition toISOString :: "int \<Rightarrow> string" where
  "toISOString t =
     (let ms = t mod 86400000 in
      case civil_from_days (t div 86400000) of
        (y, mm, dd) \<Rightarrow>
          (if 0 \<le> y \<and> y \<le> 9999 then pad 4 (nat y)
           else (if y < 0 then ''-'' else ''+'') @ pad 6 (nat \<bar>y\<bar>))
          @ ''-'' @ pad 2 (nat mm) @ ''-'' @ pad 2 (nat dd)
          @ ''T'' @ pad 2 (nat (ms div 3600000))
          @ '':'' @ pad 2 (nat (ms mod 3600000 div 60000))
          @ '':'' @ pad 2 (nat (ms mod 60000 div 1000))
          @ ''.'' @ pad 3 (nat (ms mod 1000)) @ ''Z'')"

definition JSON_char :: "char \<Rightarrow> string" where
  "JSON_char c =
     (let n = (of_char c :: nat) in
      if n = 34 then [CHR 0x5C, CHR 0x22]
      else if n = 92 then [CHR 0x5C, CHR 0x5C]
      else if n = 8 then CHR 0x5C # ''b''
      else if n = 9 then CHR 0x5C # ''t''
      else if n = 10 then CHR 0x5C # ''n''
      else if n = 12 then CHR 0x5C # ''f''
      else if n = 13 then CHR 0x5C # ''r''
      else if n < 32 then CHR 0x5C # ''u00'' @ [hex_digit (n div 16), hex_digit (n mod 16)]
      else [c])"

definition JSON_string :: "string \<Rightarrow> string" where
  "JSON_string t = CHR 0x22 # concat (map JSON_char t) @ [CHR 0x22]"

fun join_comma :: "string list \<Rightarrow> string" where
  "join_comma [] = []"
| "join_comma [x] = x"
| "join_comma (x # y # ys) = x @ '','' @ join_comma (y # ys)"

fun JSON_value :: "attr_value \<Rightarrow> string" where
  "JSON_value (AString t) = JSON_string t"
| "JSON_value (ADate None) = ''null''"
| "JSON_value (ADate (Some (Date None))) = ''null''"
| "JSON_value (ADate (Some (Date (Some t)))) = JSON_string (toISOString t)"
| "JSON_value (AGroups gs) =
     ''['' @ join_comma (map (\<lambda>g. ''{'' @ join_comma (map (\<lambda>kv. JSON_string (fst kv) @ '':'' @ JSON_value (snd kv)) g) @ ''}'') gs) @ '']''"

definition JSON_stringify :: "SearchEntryObject \<Rightarrow> string" where
  "JSON_stringify u =
     ''{'' @ join_comma (map (\<lambda>kv. JSON_string (fst kv) @ '':'' @ JSON_value (snd kv)) u) @ ''}''"

subsection \<open>AuthenticationService: \<open>authenticate\<close>\<close>

definition authenticateInternal ::
  "externals \<Rightarrow> LdapModuleOptions \<Rightarrow> directory \<Rightarrow> string \<Rightarrow> string \<Rightarrow> LdapService
     \<Rightarrow> (error + SearchEntryObject) \<times> LdapService" where
  "authenticateInternal ext opts d username pwd s =
     (case findUser ext opts d username True s of
        (Inl e, s1) \<Rightarrow> (Inl e, s1)
      | (Inr foundUser, s1) \<Rightarrow>
          (let identity = get_prop foundUser
                 (case bindProperty opts of None \<Rightarrow> ''dn'' | Some p \<Rightarrow> if p = [] then ''dn'' else p);
               s2 = record_event (User_bind identity pwd) s1
           in case user_bind d identity pwd of
                Some e \<Rightarrow> (Inl e, s2)
              | None \<Rightarrow> getGroups ext opts d foundUser s2))"

definition authenticate_to_cache :: "externals \<Rightarrow> string \<Rightarrow> SearchEntryObject \<Rightarrow> LdapService \<Rightarrow> LdapService" where
  "authenticate_to_cache ext pwd u s =
     cache_set (''user:'' @ template_text ext (get_prop u ''sAMAccountName''))
       \<lparr>user = u, password = hashSync ext pwd (salt s)\<rparr> s"

text \<open>The test of the cached record in \<open>authenticate\<close>.\<close>

definition authenticate_cached :: "externals \<Rightarrow> string \<Rightarrow> LDAPCache \<Rightarrow> bool" where
  "authenticate_cached ext pwd cached =
     (truthy (get_prop (user cached) ''sAMAccountName'') \<and> password cached \<noteq> []
      \<and> (password cached = LDAP_PASSWORD_NULL \<or> compareSync ext pwd (password cached)))"

text \<open>
  The re-authentication that \<open>authenticate\<close> starts after a hit. It runs after the
  cached user has been returned; the model runs it to its end and keeps its state.
\<close>

definition authenticate_refresh ::
  "externals \<Rightarrow> LdapModuleOptions \<Rightarrow> directory \<Rightarrow> string \<Rightarrow> string \<Rightarrow> LDAPCache \<Rightarrow> LdapService
     \<Rightarrow> LdapService" where
  "authenticate_refresh ext opts d username pwd cached s =
     (case authenticateInternal ext opts d username pwd s of
        (Inl e, s1) \<Rightarrow> s1
      | (Inr u, s1) \<Rightarrow>
          if JSON_stringify u \<noteq> JSON_stringify (user cached) \<and> userCache s1 \<noteq> None
          then authenticate_to_cache ext pwd u s1
          else s1)"

definition authenticate_live ::
  "externals \<Rightarrow> LdapModuleOptions \<Rightarrow> directory \<Rightarrow> string \<Rightarrow> string \<Rightarrow> LdapService
     \<Rightarrow> (error + SearchEntryObject) \<times> LdapService" where
  "authenticate_live ext opts d username pwd s =
     (case authenticateInternal ext opts d username pwd s of
        (Inl e, s1) \<Rightarrow> (Inl e, s1)
      | (Inr u, s1) \<Rightarrow> (Inr u, if userCache s1 \<noteq> None then authenticate_to_cache ext pwd u s1 else s1))"

definition authenticate ::
  "externals \<Rightarrow> LdapModuleOptions \<Rightarrow> directory \<Rightarrow> string \<Rightarrow> string \<Rightarrow> bool \<Rightarrow> LdapService
     \<Rightarrow> (error + SearchEntryObject) \<times> LdapService" where
  "authenticate ext opts d username pwd cache s =
     (if pwd = [] then (Inl (Error ''No password given''), s)
      else if cache \<and> userCache s \<noteq> None
      then (case cache_get (''user:'' @ username) s of
              (None, s1) \<Rightarrow> authenticate_live ext opts d username pwd s1
            | (Some cached, s1) \<Rightarrow>
                if authenticate_cached ext pwd cached
                then (Inr (user cached), authenticate_refresh ext opts d username pwd cached s1)
                else authenticate_live ext opts d username pwd s1)
      else authenticate_live ext opts d username pwd s)"

subsection \<open>AuthenticationService: \<open>modify\<close>\<close>

text \<open>
  The callbacks of \<open>modify\<close> overwrite the values of the photo changes in the array
  of the caller, so the model returns the array next to the result.
\<close>

definition skip_photo :: "Change \<Rightarrow> Change" where
  "skip_photo c =
     (if type (modification c) = ''thumbnailPhoto'' \<or> type (modification c) = ''jpegPhoto''
      then c\<lparr>modification := (modification c)\<lparr>vals := VString ''...skipped...''\<rparr>\<rparr>
      else c)"

definition modify_cache_reset :: "string \<Rightarrow> string option \<Rightarrow> LdapService \<Rightarrow> LdapService" where
  "modify_cache_reset dn username s =
     (if userCache s \<noteq> None
      then (let s1 = cache_del dn s in
            case username of
              None \<Rightarrow> s1
            | Some u \<Rightarrow> if u \<noteq> [] then cache_del u s1 else s1)
      else s)"

text \<open>
  With a password, the user client binds, the callback of the bind redacts the array
  and then sends it; the callback of that modification rejects on an error and goes on
  to reset the cache all the same, and only the first settlement of the promise counts.
  Without a password the admin client sends the array as it is, and its callback redacts
  the array and returns after rejecting.
\<close>

definition modify ::
  "LdapModuleOptions \<Rightarrow> directory \<Rightarrow> string \<Rightarrow> Change list \<Rightarrow> string option \<Rightarrow> string option
     \<Rightarrow> LdapService \<Rightarrow> (error + bool) \<times> Change list \<times> LdapService" where
  "modify opts d dn data username pwd s =
     (case adminBind opts d s of
        (Inl e, s1) \<Rightarrow> (Inl e, data, s1)
      | (Inr ok, s1) \<Rightarrow>
          (case pwd of
             Some p \<Rightarrow>
               if p \<noteq> []
               then (let s2 = record_event (User_bind (Some (AString dn)) p) s1;
                         data' = map skip_photo data
                     in case user_bind d (Some (AString dn)) p of
                          Some e \<Rightarrow> (Inl e, data', s2)
                        | None \<Rightarrow>
                            (let s3 = record_event (User_modify dn data') s2;
                                 s4 = modify_cache_reset dn username s3
                             in case user_modify d dn data' of
                                  Some e \<Rightarrow> (Inl e, data', s4)
                                | None \<Rightarrow> (Inr True, data', s4)))
               else (let s2 = record_event (Admin_modify dn data) s1 in
                     case admin_modify d dn data of
                       Some e \<Rightarrow> (Inl e, map skip_photo data, s2)
                     | None \<Rightarrow> (Inr True, map skip_photo data, modify_cache_reset dn username s2))
           | None \<Rightarrow>
               (let s2 = record_event (Admin_modify dn data) s1 in
                case admin_modify d dn data of
                  Some e \<Rightarrow> (Inl e, map skip_photo data, s2)
                | None \<Rightarrow> (Inr True, map skip_photo data, modify_cache_reset dn username s2))))"

section \<open>A fixture directory\<close>

text \<open>
  A small directory and configuration for closed examples. The directory knows the
  user \<open>alice\<close>, answers a search for \<open>bob\<close> with two entries and any other search with
  none, lets the admin client modify and refuses every modification by the user
  client. The bcrypt functions of the fixture are stand-ins: a hash is the salt, a
  separator and the password.
\<close>

definition fixture_externals :: externals where
  "fixture_externals =
     \<lparr>hashSync = (\<lambda>pwd slt. slt @ ''#'' @ pwd),
      compareSync = (\<lambda>pwd h. h \<noteq> [] \<and> dropWhile (\<lambda>c. c \<noteq> CHR ''#'') h = ''#'' @ pwd),
      Date_toString = (\<lambda>dt. ''Invalid Date''),
      ldapADattributes = [''dn'', ''sAMAccountName'', ''whenCreated'']\<rparr>"

definition fixture_options :: LdapModuleOptions where
  "fixture_options =
     \<lparr>bindDN = Some ''cn=admin,dc=example'',
      bindCredentials = ''secret'',
      reconnect = True,
      searchBase = ''dc=example'',
      searchFilter = ''(sAMAccountName={{username}})'',
      searchScope = Some ''sub'',
      searchAttributes = None,
      bindProperty = None,
      groupSearchBase = None,
      groupSearchFilter = None,
      groupSearchScope = None,
      groupSearchAttributes = None,
      includeRaw = False\<rparr>"

definition alice_entry :: SearchEntry where
  "alice_entry = \<lparr>object = [(''dn'', ''CN=Alice,DC=example''), (''sAMAccountName'', ''Alice'')], raw = []\<rparr>"

definition bob_entry :: SearchEntry where
  "bob_entry = \<lparr>object = [(''dn'', ''CN=Bob,DC=example''), (''sAMAccountName'', ''bob'')], raw = []\<rparr>"

definition alice :: SearchEntryObject where
  "alice = [(''dn'', AString ''cn=alice,dc=example''), (''sAMAccountName'', AString ''alice'')]"

definition fixture_directory :: directory where
  "fixture_directory =
     \<lparr>admin_bind = (\<lambda>dn pwd. if dn = ''cn=admin,dc=example'' \<and> pwd = ''secret'' then None
                               else Some (LdapError ''InvalidCredentialsError'')),
      admin_search = (\<lambda>base sopts.
         if search_filter sopts = Some ''(sAMAccountName=alice)'' \<or> base = ''cn=alice,dc=example''
         then SearchStream [alice_entry] (End 0)
         else if search_filter sopts = Some ''(sAMAccountName=bob)''
         then SearchStream [bob_entry, bob_entry] (End 0)
         else SearchStream [] (End 0)),
      admin_modify = (\<lambda>dn data. None),
      user_bind = (\<lambda>identity pwd. if identity = Some (AString ''cn=alice,dc=example'') \<and> pwd = ''wonderland''
                                    then None else Some (LdapError ''InvalidCredentialsError'')),
      user_modify = (\<lambda>dn data. Some (LdapError ''InsufficientAccessRightsError''))\<rparr>"

text \<open>The service right after its construction, without a cache and with one.\<close>

definition fixture_service :: LdapService where
  "fixture_service =
     \<lparr>adminBound = False, userCache = None, salt = [], onceInstallReconnectListener = True,
      connectListeners = 0, trace = []\<rparr>"

definition fixture_cached_service :: "(string \<rightharpoonup> LDAPCache) \<Rightarrow> LdapService" where
  "fixture_cached_service c =
     \<lparr>adminBound = False, userCache = Some c, salt = ''salt'', onceInstallReconnectListener = True,
      connectListeners = 0, trace = []\<rparr>"

text \<open>Two changes, and two cached records of \<open>alice\<close>: one stored by a lookup, with the
  sentinel, and an older one stored by an authentication with the password \<open>wonderland\<close>.\<close>

definition photo_change :: Change where
  "photo_change = \<lparr>operation = ''replace'', modification = \<lparr>type = ''thumbnailPhoto'', vals = VArray [''/9j/4AAQ'']\<rparr>\<rparr>"

definition mail_change :: Change where
  "mail_change = \<lparr>operation = ''replace'', modification = \<lparr>type = ''mail'', vals = VArray [''alice@example.org'']\<rparr>\<rparr>"

definition sentinel_record :: LDAPCache where
  "sentinel_record = \<lparr>user = alice, password = LDAP_PASSWORD_NULL\<rparr>"

definition old_record :: LDAPCache where
  "old_record =
     \<lparr>user = [(''dn'', AString ''cn=alice,dc=example''), (''sAMAccountName'', AString ''alice''),
              (''title'', AString ''clerk'')],
      password = ''salt#wonderland''\<rparr>"

section \<open>The replacement string of \<open>GUIDtoString\<close>, written out\<close>

text \<open>
  \<open>GUID_layout\<close> is what the replacement string
  \<open>$4$3$2$1-$6$5-$8$7-$10$9-$16$15$14$13$12$11\<close> of the source writes for sixteen
  bytes, in upper case: it is the source's order, used to compute with \<open>GUIDtoString\<close>.
  \<open>unhex\<close> reads an upper-case hexadecimal digit.
\<close>

definition upper_digit :: "nat \<Rightarrow> char" where
  "upper_digit n = toUpperCase_char (hex_digit n)"

definition upper_hex_byte :: "byte \<Rightarrow> string" where
  "upper_hex_byte b = toUpperCase (hex_byte b)"

definition GUID_layout :: "byte list \<Rightarrow> string" where
  "GUID_layout bs =
     upper_hex_byte (bs ! 3) @ upper_hex_byte (bs ! 2) @ upper_hex_byte (bs ! 1) @ upper_hex_byte (bs ! 0) @ ''-''
     @ upper_hex_byte (bs ! 5) @ upper_hex_byte (bs ! 4) @ ''-''
     @ upper_hex_byte (bs ! 7) @ upper_hex_byte (bs ! 6) @ ''-''
     @ upper_hex_byte (bs ! 9) @ upper_hex_byte (bs ! 8) @ ''-''
     @ upper_hex_byte (bs ! 15) @ upper_hex_byte (bs ! 14) @ upper_hex_byte (bs ! 13)
     @ upper_hex_byte (bs ! 12) @ upper_hex_byte (bs ! 11) @ upper_hex_byte (bs ! 10)"

definition unhex :: "char \<Rightarrow> nat" where
  "unhex c = (if (of_char c :: nat) \<le> 57 then (of_char c :: nat) - 48 else (of_char c :: nat) - 55)"

section \<open>The words of the specification about GUIDs\<close>

text \<open>
  The transport encoding of a byte sequence is its base64 text. The display form of a
  GUID has 36 characters: hyphens at the positions 8, 13, 18 and 23, and the digits
  \<open>0\<close> to \<open>9\<close> and \<open>A\<close> to \<open>F\<close> everywhere else. \<open>GUID_mixed_endian\<close> is the display
  convention in the words of the specification: four bytes, two bytes and two bytes in
  little-endian order, then two bytes and six bytes in big-endian order.
\<close>

definition base64_char :: "nat \<Rightarrow> char" where
  "base64_char n =
     (if n < 26 then char_of (65 + n)
      else if n < 52 then char_of (71 + n)
      else if n < 62 then char_of (n - 4)
      else if n = 62 then CHR ''+'' else CHR ''/'')"

fun base64_encode :: "byte list \<Rightarrow> string" where
  "base64_encode (a # b # c # rest) =
     [base64_char (unat a div 4), base64_char ((unat a mod 4) * 16 + unat b div 16),
      base64_char ((unat b mod 16) * 4 + unat c div 64), base64_char (unat c mod 64)]
       @ base64_encode rest"
| "base64_encode [a, b] =
     [base64_char (unat a div 4), base64_char ((unat a mod 4) * 16 + unat b div 16),
      base64_char ((unat b mod 16) * 4), CHR ''='']"
| "base64_encode [a] = [base64_char (unat a div 4), base64_char ((unat a mod 4) * 16), CHR ''='', CHR ''='']"
| "base64_encode [] = []"

definition is_upper_hex :: "char \<Rightarrow> bool" where
  "is_upper_hex c =
     ((48 \<le> (of_char c :: nat) \<and> (of_char c :: nat) \<le> 57) \<or> (65 \<le> (of_char c :: nat) \<and> (of_char c :: nat) \<le> 70))"

definition GUID_form :: "string \<Rightarrow> bool" where
  "GUID_form t =
     (length t = 36
      \<and> t ! 8 = CHR ''-'' \<and> t ! 13 = CHR ''-'' \<and> t ! 18 = CHR ''-'' \<and> t ! 23 = CHR ''-''
      \<and> list_all is_upper_hex (take 8 t) \<and> list_all is_upper_hex (take 4 (drop 9 t))
      \<and> list_all is_upper_hex (take 4 (drop 14 t)) \<and> list_all is_upper_hex (take 4 (drop 19 t))
      \<and> list_all is_upper_hex (drop 24 t))"

definition GUID_mixed_endian :: "byte list \<Rightarrow> string" where
  "GUID_mixed_endian bs =
     upper_hex_byte (bs ! 3) @ upper_hex_byte (bs ! 2) @ upper_hex_byte (bs ! 1) @ upper_hex_byte (bs ! 0) @ ''-''
     @ upper_hex_byte (bs ! 5) @ upper_hex_byte (bs ! 4) @ ''-''
     @ upper_hex_byte (bs ! 7) @ upper_hex_byte (bs ! 6) @ ''-''
     @ upper_hex_byte (bs ! 8) @ upper_hex_byte (bs ! 9) @ ''-''
     @ upper_hex_byte (bs ! 10) @ upper_hex_byte (bs ! 11) @ upper_hex_byte (bs ! 12)
     @ upper_hex_byte (bs ! 13) @ upper_hex_byte (bs ! 14) @ upper_hex_byte (bs ! 15)"

text \<open>
  A string is escaped when it holds none of the characters \<open>*\<close>, \<open>(\<close>, \<open>)\<close>, NUL and
  \<open>/\<close>, and every backslash in it starts one of the escapes \<open>\5c\<close>, \<open>\00\<close> and \<open>\2f\<close>.
\<close>

fun escaped :: "string \<Rightarrow> bool" where
  "escaped [] = True"
| "escaped (c # cs) =
     (if c = CHR 0x5C
      then (case cs of
              a # b # rest \<Rightarrow> ([a, b] = ''5c'' \<or> [a, b] = ''00'' \<or> [a, b] = ''2f'') \<and> escaped rest
            | _ \<Rightarrow> False)
      else c \<noteq> CHR ''*'' \<and> c \<noteq> CHR ''('' \<and> c \<noteq> CHR '')'' \<and> c \<noteq> CHR 0x00 \<and> c \<noteq> CHR ''/'' \<and> escaped cs)"


section \<open>Properties of the attribute normalizer\<close>

subsection \<open>Timestamps\<close>

lemma parseInt10_undefined: "parseInt10 ''undefined'' = None"
  by code_simp

lemma Date_UTC_NaN_seconds: "Date_UTC y m d h mi None = None"
  by (simp add: Date_UTC_def split: option.splits)

lemma fromLDAPString_null_iff: "fromLDAPString s = None \<longleftrightarrow> match_digit_pairs s = []"
  by (simp add: fromLDAPString_def Let_def)

lemma fromLDAPString_short:
  assumes "match_digit_pairs s \<noteq> []" "length (match_digit_pairs s) < 7"
  shows "fromLDAPString s = Some (Date None)"
proof -
  have "index (match_digit_pairs s) 6 = None"
    using assms(2) by (simp add: index_def)
  then show ?thesis
    using assms(1)
    by (simp add: fromLDAPString_def Let_def ToString_opt_def parseInt10_undefined
        Date_UTC_NaN_seconds new_Date_def TimeClip_def)
qed

text \<open>
  C4, as the code has it. \<open>fromLDAPString\<close> maps \<open>20230615143022Z\<close> to the instant
  2023-06-15T14:30:22Z, which is 1686839422000 milliseconds after the epoch. It returns
  \<open>null\<close> exactly for the strings without any pair of digits; a string with one to six
  pairs gives a \<open>Date\<close> object whose time value is \<open>NaN\<close>, not \<open>null\<close>.
\<close>

theorem fromLDAPString_instant:
  "fromLDAPString ''20230615143022Z'' = Some (Date (Some 1686839422000))
   \<and> (fromLDAPString s = None \<longleftrightarrow> match_digit_pairs s = [])
   \<and> (match_digit_pairs s \<noteq> [] \<and> length (match_digit_pairs s) < 7 \<longrightarrow> fromLDAPString s = Some (Date None))"
proof -
  have "fromLDAPString ''20230615143022Z'' = Some (Date (Some 1686839422000))"
    by code_simp
  then show ?thesis
    using fromLDAPString_null_iff fromLDAPString_short by blast
qed

theorem fromLDAPString_instant_witness:
  "match_digit_pairs ''2023'' \<noteq> [] \<and> length (match_digit_pairs ''2023'') < 7
   \<and> fromLDAPString ''2023'' = Some (Date None) \<and> fromLDAPString ''Z'' = None"
proof -
  have a: "match_digit_pairs ''2023'' \<noteq> [] \<and> length (match_digit_pairs ''2023'') < 7"
    by code_simp
  have b: "match_digit_pairs ''Z'' = []"
    by code_simp
  show ?thesis
    using a b fromLDAPString_instant [of "''2023''"] fromLDAPString_instant [of "''Z''"] by blast
qed

text \<open>
  C4 as the specification states it fails: \<open>2023\<close> has two pairs of digits, fewer than
  seven, and the result is a \<open>Date\<close> object, not \<open>null\<close>.
\<close>

theorem fromLDAPString_short_counterexample:
  "length (match_digit_pairs ''2023'') < 7 \<and> fromLDAPString ''2023'' \<noteq> None"
  by code_simp

subsection \<open>GUIDs\<close>

lemma byte_less: "unat (a :: byte) < 256"
  using unsigned_less [of a, where 'a = nat] by simp

lemma of_char_base64_char:
  "n < 64 \<Longrightarrow> (of_char (base64_char n) :: nat) =
     (if n < 26 then 65 + n else if n < 52 then 71 + n else if n < 62 then n - 4 else if n = 62 then 43 else 47)"
  by (simp add: base64_char_def)

lemma base64_char_roundtrip: "n < 64 \<Longrightarrow> unbase64 (base64_char n) = Some n"
  by (auto simp: unbase64_def of_char_base64_char Let_def)

lemma base64_char_not_pad: "n < 64 \<Longrightarrow> base64_char n \<noteq> CHR ''=''"
proof
  assume "n < 64" and "base64_char n = CHR ''=''"
  then have "(of_char (base64_char n) :: nat) = 61"
    by simp
  then show False
    using \<open>n < 64\<close> by (simp add: of_char_base64_char split: if_splits)
qed

lemma sextets_base64_char: "n < 64 \<Longrightarrow> sextets (base64_char n # cs) = n # sextets cs"
  by (simp add: base64_char_roundtrip base64_char_not_pad)

lemma regroup:
  fixes x y z :: nat
  assumes "y < 256" "z < 256"
  shows "(x div 4) * 4 + ((x mod 4) * 16 + y div 16) div 16 = x"
    "(((x mod 4) * 16 + y div 16) mod 16) * 16 + ((y mod 16) * 4 + z div 64) div 4 = y"
    "(((y mod 16) * 4 + z div 64) mod 4) * 64 + z mod 64 = z"
    "(x div 4) * 4 + ((x mod 4) * 16) div 16 = x"
    "(((x mod 4) * 16 + y div 16) mod 16) * 16 + ((y mod 16) * 4) div 4 = y"
proof -
  have f: "y div 16 < 16" "z div 64 < 4"
    using assms by arith+
  show "(x div 4) * 4 + ((x mod 4) * 16 + y div 16) div 16 = x"
    using f by simp
  show "(((x mod 4) * 16 + y div 16) mod 16) * 16 + ((y mod 16) * 4 + z div 64) div 4 = y"
    using f by simp
  show "(((y mod 16) * 4 + z div 64) mod 4) * 64 + z mod 64 = z"
    using f by simp
  show "(x div 4) * 4 + ((x mod 4) * 16) div 16 = x"
    by simp
  show "(((x mod 4) * 16 + y div 16) mod 16) * 16 + ((y mod 16) * 4) div 4 = y"
    using f by simp
qed

lemma sextet_bounds:
  fixes x y z :: nat
  assumes "x < 256" "y < 256" "z < 256"
  shows "x div 4 < 64" "(x mod 4) * 16 + y div 16 < 64"
    "(y mod 16) * 4 + z div 64 < 64" "z mod 64 < 64"
    "(y mod 16) * 4 < 64" "(x mod 4) * 16 < 64"
proof -
  have f: "y div 16 < 16" "z div 64 < 4" "x mod 4 < 4" "y mod 16 < 16" "x div 4 < 64"
    using assms by arith+
  show "x div 4 < 64" by (rule f(5))
  show "(x mod 4) * 16 + y div 16 < 64" using f(1,3) by linarith
  show "(y mod 16) * 4 + z div 64 < 64" using f(2,4) by linarith
  show "z mod 64 < 64" by simp
  show "(y mod 16) * 4 < 64" using f(4) by linarith
  show "(x mod 4) * 16 < 64" using f(3) by linarith
qed

lemma base64_roundtrip: "Buffer_from_base64 (base64_encode bs) = bs"
  unfolding Buffer_from_base64_def
proof (induction bs rule: base64_encode.induct)
  case (1 a b c rest)
  note l = byte_less [of a] byte_less [of b] byte_less [of c]
  have "sextets (base64_encode (a # b # c # rest)) =
      unat a div 4 # ((unat a mod 4) * 16 + unat b div 16) # ((unat b mod 16) * 4 + unat c div 64)
        # unat c mod 64 # sextets (base64_encode rest)"
    by (simp add: sextets_base64_char sextet_bounds [OF l] del: sextets.simps)
  then show ?case
    using 1 by (simp only: decode_groups.simps regroup [OF l(2) l(3)]) simp
next
  case (2 a b)
  note l = byte_less [of a] byte_less [of b]
  have "sextets (base64_encode [a, b]) =
      [unat a div 4, (unat a mod 4) * 16 + unat b div 16, (unat b mod 16) * 4]"
    by (simp add: sextets_base64_char sextet_bounds [OF l l(2)] del: sextets.simps(2), simp)
  then show ?case
    by (simp only: decode_groups.simps regroup [OF l(2) l(2)]) simp
next
  case (3 a)
  note l = byte_less [of a]
  have "sextets (base64_encode [a]) = [unat a div 4, (unat a mod 4) * 16]"
    by (simp add: sextets_base64_char sextet_bounds [OF l l l] del: sextets.simps(2), simp)
  then show ?case
    by (simp only: decode_groups.simps regroup [OF l l]) simp
next
  case 4
  show ?case by simp
qed

lemma of_char_hex_digit:
  "n < 16 \<Longrightarrow> (of_char (hex_digit n) :: nat) = (if n < 10 then 48 + n else 87 + n)"
  by (simp add: hex_digit_def)

lemma of_char_upper_digit:
  "n < 16 \<Longrightarrow> (of_char (upper_digit n) :: nat) = (if n < 10 then 48 + n else 55 + n)"
  by (simp add: upper_digit_def toUpperCase_char_def of_char_hex_digit)

lemma upper_digit_inj: "n < 16 \<Longrightarrow> m < 16 \<Longrightarrow> upper_digit n = upper_digit m \<Longrightarrow> n = m"
proof -
  assume a: "n < 16" "m < 16" "upper_digit n = upper_digit m"
  then have "(of_char (upper_digit n) :: nat) = of_char (upper_digit m)"
    by simp
  then show ?thesis
    using a(1,2) by (simp add: of_char_upper_digit split: if_splits)
qed

lemma nibbles: "unat (b :: byte) div 16 < 16" "unat b mod 16 < 16"
  using byte_less [of b] by arith+

lemma upper_hex_byte_digits: "upper_hex_byte b = [upper_digit (unat b div 16), upper_digit (unat b mod 16)]"
  by (simp add: upper_hex_byte_def hex_byte_def toUpperCase_def upper_digit_def)

lemma upper_hex_byte_inj: "upper_hex_byte b = upper_hex_byte b' \<Longrightarrow> b = b'"
proof -
  assume "upper_hex_byte b = upper_hex_byte b'"
  then have "unat b div 16 = unat b' div 16" "unat b mod 16 = unat b' mod 16"
    using upper_digit_inj nibbles by (auto simp: upper_hex_byte_digits)
  then have "unat b = unat b'"
    by (metis div_mult_mod_eq)
  then show ?thesis
    by (simp add: word_unat_eq_iff)
qed

lemma is_upper_hex_upper_digit: "n < 16 \<Longrightarrow> is_upper_hex (upper_digit n)"
  by (simp add: is_upper_hex_def of_char_upper_digit)

lemma unhex_upper_digit:
  assumes "is_upper_hex c"
  shows "unhex c < 16 \<and> upper_digit (unhex c) = c"
proof -
  have l: "unhex c < 16"
    using assms by (auto simp: is_upper_hex_def unhex_def)
  have "(of_char (upper_digit (unhex c)) :: nat) = of_char c"
    using assms l by (auto simp: of_char_upper_digit is_upper_hex_def unhex_def)
  then show ?thesis
    using l by simp
qed

lemma upper_hex_byte_onto:
  assumes "is_upper_hex c1" "is_upper_hex c2"
  shows "\<exists>b. upper_hex_byte b = [c1, c2]"
proof -
  define b :: byte where "b = of_nat (unhex c1 * 16 + unhex c2)"
  have l: "unhex c1 < 16" "unhex c2 < 16"
    using assms unhex_upper_digit by auto
  then have "unhex c1 * 16 + unhex c2 < 256"
    by linarith
  moreover have "unat (of_nat k :: byte) = k mod 256" for k
    by (simp add: unat_of_nat)
  ultimately have u: "unat b = unhex c1 * 16 + unhex c2"
    unfolding b_def by (simp only: mod_less)
  have "upper_hex_byte b = [c1, c2]"
    using l assms unhex_upper_digit by (simp add: upper_hex_byte_digits u)
  then show ?thesis ..
qed

lemma length_hex_byte: "length (hex_byte b) = 2"
  by (simp add: hex_byte_def)

lemma length_toString_hex: "length (toString_hex bs) = 2 * length bs"
  by (induction bs) (simp_all add: toString_hex_def length_hex_byte)

lemma hex_no_line_terminator: "list_all (\<lambda>c. \<not> line_terminator c) (toString_hex bs)"
proof (induction bs)
  case Nil
  show ?case by (simp add: toString_hex_def)
next
  case (Cons b bs)
  have "\<not> line_terminator (hex_digit (unat b div 16))" "\<not> line_terminator (hex_digit (unat b mod 16))"
    using nibbles [of b] by (simp_all add: line_terminator_def of_char_hex_digit)
  then show ?case
    using Cons by (simp add: toString_hex_def hex_byte_def)
qed

lemma pair_at_hex: "k < length bs \<Longrightarrow> take 2 (drop (2 * k) (toString_hex bs)) = hex_byte (bs ! k)"
proof (induction bs arbitrary: k)
  case Nil
  then show ?case by simp
next
  case (Cons b bs)
  have c: "toString_hex (b # bs) = hex_byte b @ toString_hex bs"
    by (simp add: toString_hex_def)
  show ?case
  proof (cases k)
    case 0
    then show ?thesis by (simp add: c length_hex_byte)
  next
    case (Suc j)
    then have "j < length bs" using Cons.prems by simp
    then show ?thesis
      using Cons.IH [of j] Suc by (simp add: c length_hex_byte)
  qed
qed

lemma pair_at_nth: "0 < n \<Longrightarrow> n \<le> length bs \<Longrightarrow> pair_at (toString_hex bs) n = hex_byte (bs ! (n - 1))"
  using pair_at_hex [of "n - 1" bs] by (simp add: pair_at_def)

lemma dash_upper: "toUpperCase ''-'' = ''-''"
  by code_simp

lemma replace_GUID_pairs:
  assumes "length bs = 16"
  shows "replace_GUID (toString_hex bs) =
      pair_at (toString_hex bs) 4 @ pair_at (toString_hex bs) 3 @ pair_at (toString_hex bs) 2 @ pair_at (toString_hex bs) 1 @ ''-''
         @ pair_at (toString_hex bs) 6 @ pair_at (toString_hex bs) 5 @ ''-''
         @ pair_at (toString_hex bs) 8 @ pair_at (toString_hex bs) 7 @ ''-''
         @ pair_at (toString_hex bs) 10 @ pair_at (toString_hex bs) 9 @ ''-''
         @ pair_at (toString_hex bs) 16 @ pair_at (toString_hex bs) 15 @ pair_at (toString_hex bs) 14 @ pair_at (toString_hex bs) 13 @ pair_at (toString_hex bs) 12 @ pair_at (toString_hex bs) 11"
proof -
  have "length (toString_hex bs) = 32"
    using assms by (simp add: length_toString_hex)
  then show ?thesis
    unfolding replace_GUID_def using hex_no_line_terminator [of bs] by (simp only: if_True simp_thms)
qed

lemma pair_at_byte:
  assumes "length bs = 16" "0 < n" "n \<le> 16"
  shows "pair_at (toString_hex bs) n = hex_byte (bs ! (n - 1))"
  using pair_at_nth [of n bs] assms by simp

lemma GUID_of_16_bytes:
  assumes "length bs = 16"
  shows "toUpperCase (replace_GUID (toString_hex bs)) = GUID_layout bs"
proof -
  have "replace_GUID (toString_hex bs) =
      hex_byte (bs ! 3) @ hex_byte (bs ! 2) @ hex_byte (bs ! 1) @ hex_byte (bs ! 0) @ ''-''
      @ hex_byte (bs ! 5) @ hex_byte (bs ! 4) @ ''-''
      @ hex_byte (bs ! 7) @ hex_byte (bs ! 6) @ ''-''
      @ hex_byte (bs ! 9) @ hex_byte (bs ! 8) @ ''-''
      @ hex_byte (bs ! 15) @ hex_byte (bs ! 14) @ hex_byte (bs ! 13)
      @ hex_byte (bs ! 12) @ hex_byte (bs ! 11) @ hex_byte (bs ! 10)"
    unfolding replace_GUID_pairs [OF assms] by (simp add: pair_at_byte [OF assms])
  then have "toUpperCase (replace_GUID (toString_hex bs)) =
      toUpperCase (hex_byte (bs ! 3)) @ toUpperCase (hex_byte (bs ! 2)) @ toUpperCase (hex_byte (bs ! 1))
      @ toUpperCase (hex_byte (bs ! 0)) @ toUpperCase ''-''
      @ toUpperCase (hex_byte (bs ! 5)) @ toUpperCase (hex_byte (bs ! 4)) @ toUpperCase ''-''
      @ toUpperCase (hex_byte (bs ! 7)) @ toUpperCase (hex_byte (bs ! 6)) @ toUpperCase ''-''
      @ toUpperCase (hex_byte (bs ! 9)) @ toUpperCase (hex_byte (bs ! 8)) @ toUpperCase ''-''
      @ toUpperCase (hex_byte (bs ! 15)) @ toUpperCase (hex_byte (bs ! 14)) @ toUpperCase (hex_byte (bs ! 13))
      @ toUpperCase (hex_byte (bs ! 12)) @ toUpperCase (hex_byte (bs ! 11)) @ toUpperCase (hex_byte (bs ! 10))"
    by (simp only: toUpperCase_def map_append)
  then show ?thesis
    by (simp only: dash_upper GUID_layout_def upper_hex_byte_def)
qed

lemma list16:
  "length (bs :: byte list) = 16 \<Longrightarrow>
   \<exists>x0 x1 x2 x3 x4 x5 x6 x7 x8 x9 x10 x11 x12 x13 x14 x15.
     bs = [x0, x1, x2, x3, x4, x5, x6, x7, x8, x9, x10, x11, x12, x13, x14, x15]"
  by (simp add: numeral_eq_Suc length_Suc_conv) blast

lemma upper_hex_byte_inj_digits:
  "upper_digit (unat (b :: byte) div 16) = upper_digit (unat (b' :: byte) div 16) \<Longrightarrow>
   upper_digit (unat b mod 16) = upper_digit (unat b' mod 16) \<Longrightarrow> b = b'"
  using upper_hex_byte_inj [of b b'] by (simp add: upper_hex_byte_digits)

lemma GUID_layout_inj:
  assumes "length bs = 16" "length bs' = 16" "GUID_layout bs = GUID_layout bs'"
  shows "bs = bs'"
proof -
  obtain x0 x1 x2 x3 x4 x5 x6 x7 x8 x9 x10 x11 x12 x13 x14 x15
    where x: "bs = [x0, x1, x2, x3, x4, x5, x6, x7, x8, x9, x10, x11, x12, x13, x14, x15]"
    using list16 [OF assms(1)] by blast
  obtain y0 y1 y2 y3 y4 y5 y6 y7 y8 y9 y10 y11 y12 y13 y14 y15
    where y: "bs' = [y0, y1, y2, y3, y4, y5, y6, y7, y8, y9, y10, y11, y12, y13, y14, y15]"
    using list16 [OF assms(2)] by blast
  show ?thesis
    using assms(3) unfolding x y
    by (simp add: GUID_layout_def upper_hex_byte_digits) (blast intro: upper_hex_byte_inj_digits)
qed

lemma GUID_layout_form:
  assumes "length bs = 16"
  shows "GUID_form (GUID_layout bs)"
  by (simp add: GUID_form_def GUID_layout_def upper_hex_byte_digits is_upper_hex_upper_digit nibbles)

lemma list36:
  assumes "length (t :: string) = 36"
  obtains c0 c1 c2 c3 c4 c5 c6 c7 c8 c9 c10 c11 c12 c13 c14 c15 c16 c17 c18 c19 c20 c21 c22 c23 c24 c25 c26 c27 c28 c29 c30 c31 c32 c33 c34 c35
    where "t = [c0, c1, c2, c3, c4, c5, c6, c7, c8, c9, c10, c11, c12, c13, c14, c15, c16, c17, c18, c19, c20, c21, c22, c23, c24, c25, c26, c27, c28, c29, c30, c31, c32, c33, c34, c35]"
proof -
  obtain c0 r0 where e0: "t = c0 # r0" and l0: "length r0 = 35"
    using assms by (cases t) auto
  obtain c1 r1 where e1: "r0 = c1 # r1" and l1: "length r1 = 34"
    using l0 by (cases r0) auto
  obtain c2 r2 where e2: "r1 = c2 # r2" and l2: "length r2 = 33"
    using l1 by (cases r1) auto
  obtain c3 r3 where e3: "r2 = c3 # r3" and l3: "length r3 = 32"
    using l2 by (cases r2) auto
  obtain c4 r4 where e4: "r3 = c4 # r4" and l4: "length r4 = 31"
    using l3 by (cases r3) auto
  obtain c5 r5 where e5: "r4 = c5 # r5" and l5: "length r5 = 30"
    using l4 by (cases r4) auto
  obtain c6 r6 where e6: "r5 = c6 # r6" and l6: "length r6 = 29"
    using l5 by (cases r5) auto
  obtain c7 r7 where e7: "r6 = c7 # r7" and l7: "length r7 = 28"
    using l6 by (cases r6) auto
  obtain c8 r8 where e8: "r7 = c8 # r8" and l8: "length r8 = 27"
    using l7 by (cases r7) auto
  obtain c9 r9 where e9: "r8 = c9 # r9" and l9: "length r9 = 26"
    using l8 by (cases r8) auto
  obtain c10 r10 where e10: "r9 = c10 # r10" and l10: "length r10 = 25"
    using l9 by (cases r9) auto
  obtain c11 r11 where e11: "r10 = c11 # r11" and l11: "length r11 = 24"
    using l10 by (cases r10) auto
  obtain c12 r12 where e12: "r11 = c12 # r12" and l12: "length r12 = 23"
    using l11 by (cases r11) auto
  obtain c13 r13 where e13: "r12 = c13 # r13" and l13: "length r13 = 22"
    using l12 by (cases r12) auto
  obtain c14 r14 where e14: "r13 = c14 # r14" and l14: "length r14 = 21"
    using l13 by (cases r13) auto
  obtain c15 r15 where e15: "r14 = c15 # r15" and l15: "length r15 = 20"
    using l14 by (cases r14) auto
  obtain c16 r16 where e16: "r15 = c16 # r16" and l16: "length r16 = 19"
    using l15 by (cases r15) auto
  obtain c17 r17 where e17: "r16 = c17 # r17" and l17: "length r17 = 18"
    using l16 by (cases r16) auto
  obtain c18 r18 where e18: "r17 = c18 # r18" and l18: "length r18 = 17"
    using l17 by (cases r17) auto
  obtain c19 r19 where e19: "r18 = c19 # r19" and l19: "length r19 = 16"
    using l18 by (cases r18) auto
  obtain c20 r20 where e20: "r19 = c20 # r20" and l20: "length r20 = 15"
    using l19 by (cases r19) auto
  obtain c21 r21 where e21: "r20 = c21 # r21" and l21: "length r21 = 14"
    using l20 by (cases r20) auto
  obtain c22 r22 where e22: "r21 = c22 # r22" and l22: "length r22 = 13"
    using l21 by (cases r21) auto
  obtain c23 r23 where e23: "r22 = c23 # r23" and l23: "length r23 = 12"
    using l22 by (cases r22) auto
  obtain c24 r24 where e24: "r23 = c24 # r24" and l24: "length r24 = 11"
    using l23 by (cases r23) auto
  obtain c25 r25 where e25: "r24 = c25 # r25" and l25: "length r25 = 10"
    using l24 by (cases r24) auto
  obtain c26 r26 where e26: "r25 = c26 # r26" and l26: "length r26 = 9"
    using l25 by (cases r25) auto
  obtain c27 r27 where e27: "r26 = c27 # r27" and l27: "length r27 = 8"
    using l26 by (cases r26) auto
  obtain c28 r28 where e28: "r27 = c28 # r28" and l28: "length r28 = 7"
    using l27 by (cases r27) auto
  obtain c29 r29 where e29: "r28 = c29 # r29" and l29: "length r29 = 6"
    using l28 by (cases r28) auto
  obtain c30 r30 where e30: "r29 = c30 # r30" and l30: "length r30 = 5"
    using l29 by (cases r29) auto
  obtain c31 r31 where e31: "r30 = c31 # r31" and l31: "length r31 = 4"
    using l30 by (cases r30) auto
  obtain c32 r32 where e32: "r31 = c32 # r32" and l32: "length r32 = 3"
    using l31 by (cases r31) auto
  obtain c33 r33 where e33: "r32 = c33 # r33" and l33: "length r33 = 2"
    using l32 by (cases r32) auto
  obtain c34 r34 where e34: "r33 = c34 # r34" and l34: "length r34 = 1"
    using l33 by (cases r33) auto
  obtain c35 r35 where e35: "r34 = c35 # r35" and l35: "length r35 = 0"
    using l34 by (cases r34) auto
  have "r35 = []"
    using l35 by simp
  then have "t = [c0, c1, c2, c3, c4, c5, c6, c7, c8, c9, c10, c11, c12, c13, c14, c15, c16, c17, c18, c19, c20, c21, c22, c23, c24, c25, c26, c27, c28, c29, c30, c31, c32, c33, c34, c35]"
    by (simp only: e0 e1 e2 e3 e4 e5 e6 e7 e8 e9 e10 e11 e12 e13 e14 e15 e16 e17 e18 e19 e20 e21 e22 e23 e24 e25 e26 e27 e28 e29 e30 e31 e32 e33 e34 e35)
  then show thesis
    by (rule that)
qed

lemma GUID_layout_onto:
  assumes "GUID_form t"
  shows "\<exists>bs. length bs = 16 \<and> GUID_layout bs = t"
proof -
  have "length t = 36"
    using assms by (simp add: GUID_form_def)
  then obtain c0 c1 c2 c3 c4 c5 c6 c7 c8 c9 c10 c11 c12 c13 c14 c15 c16 c17 c18 c19 c20 c21 c22 c23 c24 c25 c26 c27 c28 c29 c30 c31 c32 c33 c34 c35
    where t: "t = [c0, c1, c2, c3, c4, c5, c6, c7, c8, c9, c10, c11, c12, c13, c14, c15, c16, c17, c18, c19, c20, c21, c22, c23, c24, c25, c26, c27, c28, c29, c30, c31, c32, c33, c34, c35]"
    using list36 [of t thesis] by blast
  have dashes: "c8 = CHR ''-''" "c13 = CHR ''-''" "c18 = CHR ''-''" "c23 = CHR ''-''"
    using assms unfolding t by (simp_all add: GUID_form_def)
  have hex: "is_upper_hex c0" "is_upper_hex c1" "is_upper_hex c2" "is_upper_hex c3" "is_upper_hex c4" "is_upper_hex c5" "is_upper_hex c6" "is_upper_hex c7" "is_upper_hex c9" "is_upper_hex c10" "is_upper_hex c11" "is_upper_hex c12" "is_upper_hex c14" "is_upper_hex c15" "is_upper_hex c16" "is_upper_hex c17" "is_upper_hex c19" "is_upper_hex c20" "is_upper_hex c21" "is_upper_hex c22" "is_upper_hex c24" "is_upper_hex c25" "is_upper_hex c26" "is_upper_hex c27" "is_upper_hex c28" "is_upper_hex c29" "is_upper_hex c30" "is_upper_hex c31" "is_upper_hex c32" "is_upper_hex c33" "is_upper_hex c34" "is_upper_hex c35"
    using assms unfolding t by (simp_all add: GUID_form_def)
  obtain b0 where b0: "upper_hex_byte b0 = [c6, c7]"
    using upper_hex_byte_onto hex by blast
  obtain b1 where b1: "upper_hex_byte b1 = [c4, c5]"
    using upper_hex_byte_onto hex by blast
  obtain b2 where b2: "upper_hex_byte b2 = [c2, c3]"
    using upper_hex_byte_onto hex by blast
  obtain b3 where b3: "upper_hex_byte b3 = [c0, c1]"
    using upper_hex_byte_onto hex by blast
  obtain b4 where b4: "upper_hex_byte b4 = [c11, c12]"
    using upper_hex_byte_onto hex by blast
  obtain b5 where b5: "upper_hex_byte b5 = [c9, c10]"
    using upper_hex_byte_onto hex by blast
  obtain b6 where b6: "upper_hex_byte b6 = [c16, c17]"
    using upper_hex_byte_onto hex by blast
  obtain b7 where b7: "upper_hex_byte b7 = [c14, c15]"
    using upper_hex_byte_onto hex by blast
  obtain b8 where b8: "upper_hex_byte b8 = [c21, c22]"
    using upper_hex_byte_onto hex by blast
  obtain b9 where b9: "upper_hex_byte b9 = [c19, c20]"
    using upper_hex_byte_onto hex by blast
  obtain b10 where b10: "upper_hex_byte b10 = [c34, c35]"
    using upper_hex_byte_onto hex by blast
  obtain b11 where b11: "upper_hex_byte b11 = [c32, c33]"
    using upper_hex_byte_onto hex by blast
  obtain b12 where b12: "upper_hex_byte b12 = [c30, c31]"
    using upper_hex_byte_onto hex by blast
  obtain b13 where b13: "upper_hex_byte b13 = [c28, c29]"
    using upper_hex_byte_onto hex by blast
  obtain b14 where b14: "upper_hex_byte b14 = [c26, c27]"
    using upper_hex_byte_onto hex by blast
  obtain b15 where b15: "upper_hex_byte b15 = [c24, c25]"
    using upper_hex_byte_onto hex by blast
  have "GUID_layout [b0, b1, b2, b3, b4, b5, b6, b7, b8, b9, b10, b11, b12, b13, b14, b15] = t"
    unfolding t by (simp add: GUID_layout_def b0 b1 b2 b3 b4 b5 b6 b7 b8 b9 b10 b11 b12 b13 b14 b15 dashes)
  moreover have "length [b0, b1, b2, b3, b4, b5, b6, b7, b8, b9, b10, b11, b12, b13, b14, b15] = 16"
    by simp
  ultimately show ?thesis
    by blast
qed

lemma GUID_of_other_length:
  assumes "length bs \<noteq> 16"
  shows "replace_GUID (toString_hex bs) = toString_hex bs"
  using assms by (simp add: replace_GUID_def length_toString_hex)

lemma GUIDtoString_eq:
  "GUIDtoString s =
     (if length (Buffer_from_base64 s) = 16 then GUID_layout (Buffer_from_base64 s)
      else toUpperCase (toString_hex (Buffer_from_base64 s)))"
proof (cases "s = []")
  case True
  then show ?thesis
    by (simp add: GUIDtoString_def Buffer_from_base64_def toString_hex_def toUpperCase_def)
next
  case False
  then show ?thesis
    by (simp add: GUIDtoString_def GUID_of_16_bytes GUID_of_other_length)
qed

lemma GUID_layout_not_empty: "GUID_layout bs \<noteq> []"
  by (simp add: GUID_layout_def upper_hex_byte_digits)

lemma GUIDtoString_empty_iff: "GUIDtoString s = [] \<longleftrightarrow> Buffer_from_base64 s = []"
proof (cases "length (Buffer_from_base64 s) = 16")
  case True
  then show ?thesis
    using GUID_layout_not_empty by (auto simp: GUIDtoString_eq)
next
  case False
  have "toUpperCase (toString_hex bs) = [] \<longleftrightarrow> bs = []" for bs
    using length_toString_hex [of bs] by (auto simp: toUpperCase_def)
  then show ?thesis
    using False by (simp add: GUIDtoString_eq)
qed

lemma GUIDtoString_encode:
  "length bs = 16 \<Longrightarrow> GUIDtoString (base64_encode bs) = GUID_layout bs"
  by (simp add: GUIDtoString_eq base64_roundtrip)

lemma GUIDtoString_bij:
  "bij_betw GUIDtoString (base64_encode ` {bs. length bs = 16}) {t. GUID_form t}"
  unfolding bij_betw_def
proof
  show "inj_on GUIDtoString (base64_encode ` {bs. length bs = 16})"
  proof (rule inj_onI)
    fix s s'
    assume a: "s \<in> base64_encode ` {bs. length bs = 16}" "s' \<in> base64_encode ` {bs. length bs = 16}"
      and e: "GUIDtoString s = GUIDtoString s'"
    from a obtain bs bs' where b: "s = base64_encode bs" "length bs = 16" "s' = base64_encode bs'" "length bs' = 16"
      by auto
    then have "GUID_layout bs = GUID_layout bs'"
      using e by (simp add: GUIDtoString_encode)
    then have "bs = bs'"
      using b GUID_layout_inj by blast
    then show "s = s'"
      using b by simp
  qed
next
  show "GUIDtoString ` base64_encode ` {bs. length bs = 16} = {t. GUID_form t}"
  proof
    show "GUIDtoString ` base64_encode ` {bs. length bs = 16} \<subseteq> {t. GUID_form t}"
      using GUID_layout_form by (auto simp: GUIDtoString_encode)
  next
    show "{t. GUID_form t} \<subseteq> GUIDtoString ` base64_encode ` {bs. length bs = 16}"
    proof
      fix t
      assume "t \<in> {t. GUID_form t}"
      then obtain bs where "length bs = 16" "GUID_layout bs = t"
        using GUID_layout_onto by blast
      then have "t = GUIDtoString (base64_encode bs)" "bs \<in> {bs. length bs = 16}"
        by (simp_all add: GUIDtoString_encode)
      then show "t \<in> GUIDtoString ` base64_encode ` {bs. length bs = 16}"
        by blast
    qed
  qed
qed

text \<open>
  The order of the bytes in the last two groups. For the bytes 0 to 15 the source
  writes \<open>0908\<close> and \<open>0F0E0D0C0B0A\<close>, where the display convention of the
  specification has \<open>0809\<close> and \<open>0A0B0C0D0E0F\<close>.
\<close>

lemma GUIDtoString_byte_order:
  "GUIDtoString (base64_encode [0, 1, 2, 3, 4, 5, 6, 7, 8, 9, 10, 11, 12, 13, 14, 15])
     = ''03020100-0504-0706-0908-0F0E0D0C0B0A''
   \<and> GUID_mixed_endian [0, 1, 2, 3, 4, 5, 6, 7, 8, 9, 10, 11, 12, 13, 14, 15]
     = ''03020100-0504-0706-0809-0A0B0C0D0E0F''"
  by code_simp

text \<open>
  C3, as the code has it. \<open>GUIDtoString\<close> is a total function. On an input that does not
  decode to sixteen bytes it gives the upper-case hexadecimal text of the decoded
  bytes, unchanged and without hyphens, which is the empty string only when no byte was
  decoded. On the base64 texts of the sequences of sixteen bytes it is a bijection onto
  the strings of the display form. Which byte stands at which place of the form is no
  part of this statement.
\<close>

theorem GUIDtoString_total_bijection:
  "(length (Buffer_from_base64 s) \<noteq> 16 \<longrightarrow>
      GUIDtoString s = toUpperCase (toString_hex (Buffer_from_base64 s)))
   \<and> (GUIDtoString s = [] \<longleftrightarrow> Buffer_from_base64 s = [])
   \<and> bij_betw GUIDtoString (base64_encode ` {bs. length bs = 16}) {t. GUID_form t}"
  using GUIDtoString_eq [of s] GUIDtoString_empty_iff [of s] GUIDtoString_bij by simp

theorem GUIDtoString_total_bijection_witness:
  "length (Buffer_from_base64 ''AQID'') \<noteq> 16
   \<and> GUIDtoString ''AQID'' = ''010203''
   \<and> GUID_form (GUIDtoString (base64_encode [0, 1, 2, 3, 4, 5, 6, 7, 8, 9, 10, 11, 12, 13, 14, 15]))"
proof -
  have c: "length (Buffer_from_base64 ''AQID'') \<noteq> 16"
    by code_simp
  have d: "toUpperCase (toString_hex (Buffer_from_base64 ''AQID'')) = ''010203''"
    by code_simp
  have e: "GUIDtoString ''AQID'' = ''010203''"
    using c d GUIDtoString_total_bijection [of "''AQID''"] by simp
  have "GUIDtoString ` base64_encode ` {bs. length bs = 16} = {t. GUID_form t}"
    using GUIDtoString_total_bijection [of "''AQID''"] by (simp add: bij_betw_def)
  moreover have "[0, 1, 2, 3, 4, 5, 6, 7, 8, 9, 10, 11, 12, 13, 14, 15] \<in> {bs :: byte list. length bs = 16}"
    by simp
  ultimately have "GUID_form (GUIDtoString (base64_encode [0, 1, 2, 3, 4, 5, 6, 7, 8, 9, 10, 11, 12, 13, 14, 15]))"
    by blast
  then show ?thesis
    using c e by simp
qed

text \<open>
  C3 as the specification states it fails: \<open>AQID\<close> decodes to the three bytes 1, 2, 3,
  and the result is \<open>010203\<close>, not the empty string.
\<close>

theorem GUIDtoString_wrong_length_counterexample:
  "length (Buffer_from_base64 ''AQID'') \<noteq> 16 \<and> GUIDtoString ''AQID'' \<noteq> []"
  by code_simp

subsection \<open>Sanitization\<close>

lemma replace_char_append: "replace_char c r (xs @ ys) = replace_char c r xs @ replace_char c r ys"
  by (simp add: replace_char_def)

lemma sanitizeInput_append: "sanitizeInput (xs @ ys) = sanitizeInput xs @ sanitizeInput ys"
  by (simp add: sanitizeInput_def replace_char_append)

lemma sanitizeInput_Cons: "sanitizeInput (c # cs) = sanitizeInput [c] @ sanitizeInput cs"
  using sanitizeInput_append [of "[c]" cs] by simp

lemma sanitizeInput_char:
  "sanitizeInput [c] =
     (if c = CHR ''*'' then CHR 0x5C # ''5c2a''
      else if c = CHR ''('' then CHR 0x5C # ''5c28''
      else if c = CHR '')'' then CHR 0x5C # ''5c29''
      else if c = CHR 0x5C then CHR 0x5C # ''5c''
      else if c = CHR 0x00 then CHR 0x5C # ''00''
      else if c = CHR ''/'' then CHR 0x5C # ''2f''
      else [c])"
  by (simp add: sanitizeInput_def replace_char_def)

text \<open>
  What the six replacements do reach: the sanitized text itself holds no character of
  the list, and each of its backslashes starts an escape.
\<close>

lemma sanitizeInput_escaped: "escaped (sanitizeInput s)"
proof (induction s)
  case Nil
  show ?case by (simp add: sanitizeInput_def replace_char_def)
next
  case (Cons c s)
  then show ?case
    unfolding sanitizeInput_Cons [of c s] by (simp add: sanitizeInput_char)
qed

text \<open>
  C8 at two user names. The replacement of the backslash runs after the ones of \<open>*\<close>,
  \<open>(\<close> and \<open>)\<close>, so it escapes the backslash they have just written: \<open>*\<close> becomes
  \<open>\5c2a\<close>, the escape of a backslash followed by the text \<open>2a\<close>, not the escape
  \<open>\2a\<close> of the asterisk. And the sanitized name is the replacement string of
  \<open>replace\<close>, which expands a dollar sign with a quote or a backquote to the parts of
  the template after and before the placeholder: for the name made of \<open>*\<close>, dollar
  quote, dollar backquote and \<open>*\<close>, the filter closes the first clause and opens a
  second one.
\<close>

theorem sanitizeInput_defects:
  "sanitizeInput ''*'' = CHR 0x5C # ''5c2a''
   \<and> search_filter (findUser_options fixture_externals fixture_options ''*'')
       = Some (''(sAMAccountName='' @ CHR 0x5C # ''5c2a)'')
   \<and> search_filter (findUser_options fixture_externals fixture_options (''*$'' @ [CHR 0x27] @ ''$'' @ [CHR 0x60] @ ''*''))
       = Some (''(sAMAccountName='' @ CHR 0x5C # ''5c2a)(sAMAccountName='' @ CHR 0x5C # ''5c2a)'')"
  by code_simp

section \<open>Properties of the session manager\<close>

lemmas fixture_defs = fixture_externals_def fixture_options_def fixture_directory_def
  fixture_service_def fixture_cached_service_def alice_entry_def bob_entry_def alice_def

text \<open>
  C9. \<open>adminBind\<close> changes nothing and succeeds when the admin client is bound.
  Otherwise it fails and leaves the client unbound when no \<open>bindDN\<close> is configured
  (no bind is sent) or when the directory rejects the bind, and it succeeds and marks
  the client bound when the directory accepts the bind. The client is bound afterwards
  exactly when \<open>adminBind\<close> succeeded.
\<close>

theorem adminBind_state_machine:
  "(adminBound s \<longrightarrow> adminBind opts d s = (Inr True, s))
   \<and> (\<not> adminBound s \<and> bindDN opts = None \<longrightarrow>
        adminBind opts d s = (Inl (Error ''bindDN is undefined''), s\<lparr>adminBound := False\<rparr>))
   \<and> (\<not> adminBound s \<and> bindDN opts = Some dn \<and> admin_bind d dn (bindCredentials opts) = Some e \<longrightarrow>
        adminBind opts d s = (Inl e, (record_event (Admin_bind dn (bindCredentials opts)) s)\<lparr>adminBound := False\<rparr>))
   \<and> (\<not> adminBound s \<and> bindDN opts = Some dn \<and> admin_bind d dn (bindCredentials opts) = None \<longrightarrow>
        fst (adminBind opts d s) = Inr True \<and> adminBound (snd (adminBind opts d s))
        \<and> trace (snd (adminBind opts d s)) = trace s @ [Admin_bind dn (bindCredentials opts)])
   \<and> (adminBound (snd (adminBind opts d s)) \<longleftrightarrow> fst (adminBind opts d s) = Inr True)"
  by (auto simp: adminBind_def onConnectAdmin_def record_event_def emit_installReconnectListener_def
      Let_def split: option.splits)

theorem adminBind_state_machine_witness:
  "adminBind fixture_options fixture_directory (fixture_service\<lparr>adminBound := True\<rparr>)
     = (Inr True, fixture_service\<lparr>adminBound := True\<rparr>)
   \<and> adminBind (fixture_options\<lparr>bindDN := None\<rparr>) fixture_directory fixture_service
     = (Inl (Error ''bindDN is undefined''), fixture_service\<lparr>adminBound := False\<rparr>)
   \<and> fst (adminBind (fixture_options\<lparr>bindCredentials := ''wrong''\<rparr>) fixture_directory fixture_service)
     = Inl (LdapError ''InvalidCredentialsError'')
   \<and> adminBound (snd (adminBind fixture_options fixture_directory fixture_service))"
proof -
  have a: "adminBound (fixture_service\<lparr>adminBound := True\<rparr>)"
    by simp
  have b: "\<not> adminBound fixture_service \<and> bindDN (fixture_options\<lparr>bindDN := None\<rparr>) = None"
    by (simp add: fixture_defs)
  have c: "\<not> adminBound fixture_service
      \<and> bindDN (fixture_options\<lparr>bindCredentials := ''wrong''\<rparr>) = Some ''cn=admin,dc=example''
      \<and> admin_bind fixture_directory ''cn=admin,dc=example''
           (bindCredentials (fixture_options\<lparr>bindCredentials := ''wrong''\<rparr>))
         = Some (LdapError ''InvalidCredentialsError'')"
    by (simp add: fixture_defs)
  have d: "\<not> adminBound fixture_service \<and> bindDN fixture_options = Some ''cn=admin,dc=example''
      \<and> admin_bind fixture_directory ''cn=admin,dc=example'' (bindCredentials fixture_options) = None"
    by (simp add: fixture_defs)
  show ?thesis
    using a b c d
      adminBind_state_machine [where s = "fixture_service\<lparr>adminBound := True\<rparr>" and opts = fixture_options
        and d = fixture_directory]
      adminBind_state_machine [where s = fixture_service and opts = "fixture_options\<lparr>bindDN := None\<rparr>"
        and d = fixture_directory]
      adminBind_state_machine [where s = fixture_service and opts = "fixture_options\<lparr>bindCredentials := ''wrong''\<rparr>"
        and d = fixture_directory and dn = "''cn=admin,dc=example''" and e = "LdapError ''InvalidCredentialsError''"]
      adminBind_state_machine [where s = fixture_service and opts = fixture_options
        and d = fixture_directory and dn = "''cn=admin,dc=example''"]
    by simp
qed

section \<open>Properties of the lookups\<close>

lemma fst_adminBind_trace: "fst (adminBind opts d (record_event ev s)) = fst (adminBind opts d s)"
  by (simp add: adminBind_def onConnectAdmin_def record_event_def Let_def split: option.splits)

lemma fst_search_trace: "fst (search opts d base sopts (record_event ev s)) = fst (search opts d base sopts s)"
proof -
  have "fst (adminBind opts d (record_event ev s)) = fst (adminBind opts d s)"
    by (rule fst_adminBind_trace)
  then show ?thesis
    by (cases "adminBind opts d (record_event ev s)"; cases "adminBind opts d s")
       (auto simp: search_def Let_def split: sum.splits search_response.splits stream_end.splits)
qed

lemma findUser_live_result:
  assumes "fst (search opts d (searchBase opts) (findUser_options ext opts username) s) = Inr result"
  shows "fst (findUser_live ext opts d username s) = findUser_result username result"
  using assms
  by (cases "search opts d (searchBase opts) (findUser_options ext opts username) s")
     (auto simp: findUser_live_def split: sum.splits)

lemma findUser_miss:
  assumes "username \<noteq> []"
    and "cache \<and> userCache s \<noteq> None \<longrightarrow> cached_user (fst (cache_get username s)) = None"
    and "fst (search opts d (searchBase opts) (findUser_options ext opts username) s) = Inr result"
  shows "fst (findUser ext opts d username cache s) = findUser_result username result"
proof (cases "cache \<and> userCache s \<noteq> None")
  case True
  have "fst (search opts d (searchBase opts) (findUser_options ext opts username)
          (record_event (Cache_get username) s)) = Inr result"
    using assms(3) by (simp add: fst_search_trace)
  then have "fst (findUser_live ext opts d username (record_event (Cache_get username) s))
      = findUser_result username result"
    by (rule findUser_live_result)
  then show ?thesis
    using True assms(1,2) by (auto simp: findUser_def cache_get_def)
next
  case False
  then show ?thesis
    using assms(1) findUser_live_result [OF assms(3)] by (auto simp: findUser_def)
qed

lemma searchByDN_live_result:
  assumes "fst (search opts d userByDN (searchByDN_options opts) s) = Inr result"
  shows "fst (searchByDN_live ext opts d userByDN s) = searchByDN_result userByDN result"
  using assms
  by (cases "search opts d userByDN (searchByDN_options opts) s")
     (auto simp: searchByDN_live_def split: sum.splits)

lemma searchByDN_miss:
  assumes "cache \<and> userCache s \<noteq> None \<longrightarrow> cached_user (fst (cache_get (''dn:'' @ userByDN) s)) = None"
    and "fst (search opts d userByDN (searchByDN_options opts) s) = Inr result"
  shows "fst (searchByDN ext opts d userByDN cache s) = searchByDN_result userByDN result"
proof (cases "cache \<and> userCache s \<noteq> None")
  case True
  have "fst (search opts d userByDN (searchByDN_options opts)
          (record_event (Cache_get (''dn:'' @ userByDN)) s)) = Inr result"
    using assms(2) by (simp add: fst_search_trace)
  then have "fst (searchByDN_live ext opts d userByDN (record_event (Cache_get (''dn:'' @ userByDN)) s))
      = searchByDN_result userByDN result"
    by (rule searchByDN_live_result)
  then show ?thesis
    using True assms(1) by (auto simp: searchByDN_def cache_get_def)
next
  case False
  then show ?thesis
    using searchByDN_live_result [OF assms(2)] by (auto simp: searchByDN_def)
qed

lemma findUser_result_cases:
  "(result = [] \<longrightarrow> findUser_result username result = Inl NoSuchObjectError)
   \<and> (\<forall>x. result = [x] \<longrightarrow> findUser_result username result = Inr x)
   \<and> (1 < length result \<longrightarrow> findUser_result username result =
        Inl (Error (''unexpected number of matches ('' @ show_nat (length result) @ '') for '' @ [CHR 0x22]
                 @ username @ [CHR 0x22] @ '' username'')))"
  by (auto simp: findUser_result_def split: list.splits)

lemma searchByDN_result_cases:
  "(result = [] \<longrightarrow> searchByDN_result userByDN result = Inl NoSuchObjectError)
   \<and> (\<forall>x. result = [x] \<longrightarrow> searchByDN_result userByDN result = Inr x)
   \<and> (1 < length result \<longrightarrow> searchByDN_result userByDN result =
        Inl (Error (''unexpected number of matches ('' @ show_nat (length result) @ '') for '' @ [CHR 0x22]
                 @ userByDN @ [CHR 0x22] @ '' user DN'')))"
  by (auto simp: searchByDN_result_def split: list.splits)

text \<open>
  C5. In \<open>findUser\<close>, for a user name that is not empty, once the cache has not
  answered and the search under the search base has returned its entries: exactly one
  entry is the result, no entry is the not-found error \<open>NoSuchObjectError\<close>, and more
  than one entry is an error that tells the unexpected number of matches. The same
  holds in \<open>searchByDN\<close> for its own search under the distinguished name. Each lookup
  is stated under its own conditions only.
\<close>

theorem single_entry_lookup:
  "(username \<noteq> []
    \<and> (cache \<and> userCache s \<noteq> None \<longrightarrow> cached_user (fst (cache_get username s)) = None)
    \<and> fst (search opts d (searchBase opts) (findUser_options ext opts username) s) = Inr result
    \<longrightarrow> (\<forall>x. result = [x] \<longrightarrow> fst (findUser ext opts d username cache s) = Inr x)
      \<and> (result = [] \<longrightarrow> fst (findUser ext opts d username cache s) = Inl NoSuchObjectError)
      \<and> (1 < length result \<longrightarrow> fst (findUser ext opts d username cache s) =
           Inl (Error (''unexpected number of matches ('' @ show_nat (length result) @ '') for '' @ [CHR 0x22]
                    @ username @ [CHR 0x22] @ '' username''))))
   \<and> ((cache' \<and> userCache s' \<noteq> None \<longrightarrow> cached_user (fst (cache_get (''dn:'' @ userByDN) s')) = None)
    \<and> fst (search opts' d' userByDN (searchByDN_options opts') s') = Inr result'
    \<longrightarrow> (\<forall>x. result' = [x] \<longrightarrow> fst (searchByDN ext' opts' d' userByDN cache' s') = Inr x)
      \<and> (result' = [] \<longrightarrow> fst (searchByDN ext' opts' d' userByDN cache' s') = Inl NoSuchObjectError)
      \<and> (1 < length result' \<longrightarrow> fst (searchByDN ext' opts' d' userByDN cache' s') =
           Inl (Error (''unexpected number of matches ('' @ show_nat (length result') @ '') for '' @ [CHR 0x22]
                    @ userByDN @ [CHR 0x22] @ '' user DN''))))"
proof (rule conjI)
  show "username \<noteq> []
    \<and> (cache \<and> userCache s \<noteq> None \<longrightarrow> cached_user (fst (cache_get username s)) = None)
    \<and> fst (search opts d (searchBase opts) (findUser_options ext opts username) s) = Inr result
    \<longrightarrow> (\<forall>x. result = [x] \<longrightarrow> fst (findUser ext opts d username cache s) = Inr x)
      \<and> (result = [] \<longrightarrow> fst (findUser ext opts d username cache s) = Inl NoSuchObjectError)
      \<and> (1 < length result \<longrightarrow> fst (findUser ext opts d username cache s) =
           Inl (Error (''unexpected number of matches ('' @ show_nat (length result) @ '') for '' @ [CHR 0x22]
                    @ username @ [CHR 0x22] @ '' username'')))"
  proof
    assume h: "username \<noteq> []
      \<and> (cache \<and> userCache s \<noteq> None \<longrightarrow> cached_user (fst (cache_get username s)) = None)
      \<and> fst (search opts d (searchBase opts) (findUser_options ext opts username) s) = Inr result"
    have a: "fst (findUser ext opts d username cache s) = findUser_result username result"
      using h by (intro findUser_miss) simp_all
    show "(\<forall>x. result = [x] \<longrightarrow> fst (findUser ext opts d username cache s) = Inr x)
      \<and> (result = [] \<longrightarrow> fst (findUser ext opts d username cache s) = Inl NoSuchObjectError)
      \<and> (1 < length result \<longrightarrow> fst (findUser ext opts d username cache s) =
           Inl (Error (''unexpected number of matches ('' @ show_nat (length result) @ '') for '' @ [CHR 0x22]
                    @ username @ [CHR 0x22] @ '' username'')))"
      unfolding a using findUser_result_cases [of result username] by blast
  qed
next
  show "(cache' \<and> userCache s' \<noteq> None \<longrightarrow> cached_user (fst (cache_get (''dn:'' @ userByDN) s')) = None)
    \<and> fst (search opts' d' userByDN (searchByDN_options opts') s') = Inr result'
    \<longrightarrow> (\<forall>x. result' = [x] \<longrightarrow> fst (searchByDN ext' opts' d' userByDN cache' s') = Inr x)
      \<and> (result' = [] \<longrightarrow> fst (searchByDN ext' opts' d' userByDN cache' s') = Inl NoSuchObjectError)
      \<and> (1 < length result' \<longrightarrow> fst (searchByDN ext' opts' d' userByDN cache' s') =
           Inl (Error (''unexpected number of matches ('' @ show_nat (length result') @ '') for '' @ [CHR 0x22]
                    @ userByDN @ [CHR 0x22] @ '' user DN'')))"
  proof
    assume h: "(cache' \<and> userCache s' \<noteq> None \<longrightarrow> cached_user (fst (cache_get (''dn:'' @ userByDN) s')) = None)
      \<and> fst (search opts' d' userByDN (searchByDN_options opts') s') = Inr result'"
    have b: "fst (searchByDN ext' opts' d' userByDN cache' s') = searchByDN_result userByDN result'"
      using h by (intro searchByDN_miss) simp_all
    show "(\<forall>x. result' = [x] \<longrightarrow> fst (searchByDN ext' opts' d' userByDN cache' s') = Inr x)
      \<and> (result' = [] \<longrightarrow> fst (searchByDN ext' opts' d' userByDN cache' s') = Inl NoSuchObjectError)
      \<and> (1 < length result' \<longrightarrow> fst (searchByDN ext' opts' d' userByDN cache' s') =
           Inl (Error (''unexpected number of matches ('' @ show_nat (length result') @ '') for '' @ [CHR 0x22]
                    @ userByDN @ [CHR 0x22] @ '' user DN'')))"
      unfolding b using searchByDN_result_cases [of result' userByDN] by blast
  qed
qed

lemma search_alice:
  "fst (search fixture_options fixture_directory (searchBase fixture_options)
     (findUser_options fixture_externals fixture_options ''alice'') fixture_service) = Inr [alice]"
  by code_simp

lemma search_bob:
  "fst (search fixture_options fixture_directory (searchBase fixture_options)
     (findUser_options fixture_externals fixture_options ''bob'') fixture_service)
   = Inr [[(''dn'', AString ''cn=bob,dc=example''), (''sAMAccountName'', AString ''bob'')],
          [(''dn'', AString ''cn=bob,dc=example''), (''sAMAccountName'', AString ''bob'')]]"
  by code_simp

lemma search_alice_dn:
  "fst (search fixture_options fixture_directory ''cn=alice,dc=example''
     (searchByDN_options fixture_options) fixture_service) = Inr [alice]"
  by code_simp

lemma search_nobody_dn:
  "fst (search fixture_options fixture_directory ''cn=nobody,dc=example''
     (searchByDN_options fixture_options) fixture_service) = Inr []"
  by code_simp

text \<open>
  A directory that refuses every search without a filter, and so every search of
  \<open>searchByDN\<close>: \<open>findUser\<close> is settled there all the same.
\<close>

lemma search_alice_filter_only:
  "fst (search fixture_options
     (fixture_directory\<lparr>admin_search := (\<lambda>base sopts.
        if search_filter sopts = None then SearchError (LdapError ''ProtocolError'')
        else admin_search fixture_directory base sopts)\<rparr>)
     (searchBase fixture_options)
     (findUser_options fixture_externals fixture_options ''alice'') fixture_service) = Inr [alice]"
  by code_simp

theorem single_entry_lookup_witness:
  "fst (findUser fixture_externals fixture_options fixture_directory ''alice'' True fixture_service) = Inr alice
   \<and> fst (searchByDN fixture_externals fixture_options fixture_directory ''cn=nobody,dc=example'' True
          fixture_service) = Inl NoSuchObjectError
   \<and> fst (findUser fixture_externals fixture_options fixture_directory ''bob'' True fixture_service)
       = Inl (Error (''unexpected number of matches (2) for '' @ [CHR 0x22] @ ''bob'' @ [CHR 0x22] @ '' username''))
   \<and> fst (searchByDN fixture_externals fixture_options fixture_directory ''cn=alice,dc=example'' True
          fixture_service) = Inr alice
   \<and> fst (findUser fixture_externals fixture_options
        (fixture_directory\<lparr>admin_search := (\<lambda>base sopts.
           if search_filter sopts = None then SearchError (LdapError ''ProtocolError'')
           else admin_search fixture_directory base sopts)\<rparr>)
        ''alice'' True fixture_service) = Inr alice"
proof -
  have no_cache: "userCache fixture_service = None"
    by (simp add: fixture_service_def)
  have two: "show_nat (Suc (Suc 0)) = ''2''"
    by code_simp
  have a: "fst (findUser fixture_externals fixture_options fixture_directory ''alice'' True fixture_service) = Inr alice
      \<and> fst (searchByDN fixture_externals fixture_options fixture_directory ''cn=nobody,dc=example'' True
            fixture_service) = Inl NoSuchObjectError"
    using single_entry_lookup [where username = "''alice''" and s = fixture_service and cache = True
        and opts = fixture_options and d = fixture_directory and ext = fixture_externals and result = "[alice]"
        and userByDN = "''cn=nobody,dc=example''" and s' = fixture_service and cache' = True
        and opts' = fixture_options and d' = fixture_directory and ext' = fixture_externals and result' = "[]"]
      search_alice search_nobody_dn
    by (simp add: no_cache)
  have b: "fst (findUser fixture_externals fixture_options fixture_directory ''bob'' True fixture_service)
       = Inl (Error (''unexpected number of matches (2) for '' @ [CHR 0x22] @ ''bob'' @ [CHR 0x22] @ '' username''))
      \<and> fst (searchByDN fixture_externals fixture_options fixture_directory ''cn=alice,dc=example'' True
            fixture_service) = Inr alice"
    using single_entry_lookup [where username = "''bob''" and s = fixture_service and cache = True
        and opts = fixture_options and d = fixture_directory and ext = fixture_externals
        and result = "[[(''dn'', AString ''cn=bob,dc=example''), (''sAMAccountName'', AString ''bob'')],
          [(''dn'', AString ''cn=bob,dc=example''), (''sAMAccountName'', AString ''bob'')]]"
        and userByDN = "''cn=alice,dc=example''" and s' = fixture_service and cache' = True
        and opts' = fixture_options and d' = fixture_directory and ext' = fixture_externals and result' = "[alice]"]
      search_bob search_alice_dn
    by (simp add: no_cache two)
  have c: "fst (findUser fixture_externals fixture_options
        (fixture_directory\<lparr>admin_search := (\<lambda>base sopts.
           if search_filter sopts = None then SearchError (LdapError ''ProtocolError'')
           else admin_search fixture_directory base sopts)\<rparr>)
        ''alice'' True fixture_service) = Inr alice"
    using single_entry_lookup [where username = "''alice''" and s = fixture_service and cache = True
        and opts = fixture_options and ext = fixture_externals and result = "[alice]"
        and d = "fixture_directory\<lparr>admin_search := (\<lambda>base sopts.
           if search_filter sopts = None then SearchError (LdapError ''ProtocolError'')
           else admin_search fixture_directory base sopts)\<rparr>"]
      search_alice_filter_only
    by (simp add: no_cache)
  show ?thesis
    using a b c by simp
qed

section \<open>Properties of \<open>authenticate\<close>\<close>

text \<open>
  C6. With an empty password \<open>authenticate\<close> fails with the error \<open>No password given\<close>
  and leaves the service as it was: the record of cache and directory calls has not
  grown, whatever the user name and whether or not a cache is configured or asked for.
\<close>

theorem authenticate_empty_password:
  "authenticate ext opts d username [] cache s = (Inl (Error ''No password given''), s)"
  by (simp add: authenticate_def)

theorem authenticate_empty_password_witness:
  "authenticate fixture_externals fixture_options fixture_directory ''alice'' [] True
     (fixture_cached_service Map.empty)
   = (Inl (Error ''No password given''), fixture_cached_service Map.empty)"
  using authenticate_empty_password
    [where ext = fixture_externals and opts = fixture_options and d = fixture_directory
      and username = "''alice''" and cache = True and s = "fixture_cached_service Map.empty"]
  by simp

lemma adminBind_frame:
  "userCache (snd (adminBind opts d s)) = userCache s \<and> salt (snd (adminBind opts d s)) = salt s"
  by (simp add: adminBind_def onConnectAdmin_def record_event_def emit_installReconnectListener_def
      Let_def split: option.splits)

lemma search_frame:
  "userCache (snd (search opts d base sopts s)) = userCache s \<and> salt (snd (search opts d base sopts s)) = salt s"
  using adminBind_frame [of opts d s]
  by (cases "adminBind opts d s")
     (auto simp: search_def record_event_def Let_def split: sum.splits search_response.splits stream_end.splits)

lemma findUser_live_frame:
  "userCache (snd (findUser_live ext opts d username s)) = userCache s
   \<and> salt (snd (findUser_live ext opts d username s)) = salt s"
  using search_frame [of opts d "searchBase opts" "findUser_options ext opts username" s]
  by (cases "search opts d (searchBase opts) (findUser_options ext opts username) s")
     (auto simp: findUser_live_def split: sum.splits)

lemma findUser_frame:
  "userCache (snd (findUser ext opts d username cache s)) = userCache s
   \<and> salt (snd (findUser ext opts d username cache s)) = salt s"
  using findUser_live_frame [of ext opts d username s]
    findUser_live_frame [of ext opts d username "record_event (Cache_get username) s"]
  by (auto simp: findUser_def cache_get_def record_event_def split: option.splits)

lemma getGroups_frame:
  "userCache (snd (getGroups ext opts d u s)) = userCache s \<and> salt (snd (getGroups ext opts d u s)) = salt s"
proof (cases "getGroups_active opts")
  case True
  define sopts where "sopts = \<lparr>search_filter = (case groupSearchFilter opts of None \<Rightarrow> None | Some f \<Rightarrow> Some (f u)),
                   scope = groupSearchScope opts,
                   attributes = (case groupSearchAttributes opts of
                                   None \<Rightarrow> ldapADattributes ext
                                 | Some a \<Rightarrow> a)\<rparr>"
  define base where "base = (case groupSearchBase opts of
                    None \<Rightarrow> searchBase opts
                  | Some b \<Rightarrow> if b = [] then searchBase opts else b)"
  have "findGroups ext opts d u s =
      (case search opts d base sopts s of
           (Inl e, s1) \<Rightarrow> (Inl e, s1)
         | (Inr result, s1) \<Rightarrow> (Inr (set_prop ''groups'' (AGroups result) u), s1))"
    by (simp add: findGroups_def sopts_def base_def)
  then show ?thesis
    using True search_frame [of opts d base sopts s]
    by (cases "search opts d base sopts s") (auto simp: getGroups_def split: sum.splits)
next
  case False
  then show ?thesis by (simp add: getGroups_def)
qed

lemma authenticateInternal_frame:
  "userCache (snd (authenticateInternal ext opts d username pwd s)) = userCache s
   \<and> salt (snd (authenticateInternal ext opts d username pwd s)) = salt s"
proof (cases "findUser ext opts d username True s")
  case (Pair r s1)
  have f: "userCache s1 = userCache s \<and> salt s1 = salt s"
    using findUser_frame [of ext opts d username True s] Pair by simp
  show ?thesis
  proof (cases r)
    case (Inl e)
    then show ?thesis using Pair f by (simp add: authenticateInternal_def)
  next
    case (Inr foundUser)
    define identity where "identity = get_prop foundUser
                 (case bindProperty opts of None \<Rightarrow> ''dn'' | Some p \<Rightarrow> if p = [] then ''dn'' else p)"
    have g: "userCache (snd (getGroups ext opts d foundUser (record_event (User_bind identity pwd) s1))) = userCache s
        \<and> salt (snd (getGroups ext opts d foundUser (record_event (User_bind identity pwd) s1))) = salt s"
      using getGroups_frame [of ext opts d foundUser "record_event (User_bind identity pwd) s1"] f
      by (simp add: record_event_def)
    show ?thesis
      using Pair Inr f g
      by (auto simp: authenticateInternal_def Let_def identity_def record_event_def split: option.splits)
  qed
qed

lemma sentinel_not_empty: "LDAP_PASSWORD_NULL \<noteq> []"
  by (simp add: LDAP_PASSWORD_NULL_def)


text \<open>
  C7. Let the password be non-empty, the cache configured and asked for, and let
  bcrypt accept no password against an empty hash. Then \<open>authenticate\<close> returns the
  cached user exactly when the record under \<open>user:\<close> and the user name is present, has
  an account name, and its stored proof is the sentinel or matches the password; it
  then also starts the refresh. In every other case, a record that fails the password
  check included, it goes on with the live authentication.
\<close>

theorem authenticate_cached_path:
  assumes "pwd \<noteq> []" and "\<forall>p. \<not> compareSync ext p []" and "cache" and "userCache s = Some c"
  shows "authenticate ext opts d username pwd cache s =
     (case c (''user:'' @ username) of
        None \<Rightarrow> authenticate_live ext opts d username pwd (record_event (Cache_get (''user:'' @ username)) s)
      | Some r \<Rightarrow>
          if truthy (get_prop (user r) ''sAMAccountName'')
             \<and> (password r = LDAP_PASSWORD_NULL \<or> compareSync ext pwd (password r))
          then (Inr (user r),
                authenticate_refresh ext opts d username pwd r (record_event (Cache_get (''user:'' @ username)) s))
          else authenticate_live ext opts d username pwd (record_event (Cache_get (''user:'' @ username)) s))"
  using assms sentinel_not_empty
  by (auto simp: authenticate_def cache_get_def authenticate_cached_def split: option.splits)


theorem authenticate_cached_path_witness:
  "fst (authenticate fixture_externals fixture_options fixture_directory ''alice'' ''guess'' True
          (fixture_cached_service [''user:alice'' \<mapsto> sentinel_record])) = Inr alice
   \<and> fst (authenticate fixture_externals fixture_options fixture_directory ''alice'' ''wrong'' True
          (fixture_cached_service [''user:alice'' \<mapsto> old_record])) = Inl (LdapError ''InvalidCredentialsError'')"
proof -
  have h: "\<forall>p. \<not> compareSync fixture_externals p []"
    by (simp add: fixture_externals_def)
  have c: "userCache (fixture_cached_service m) = Some m" for m
    by (simp add: fixture_cached_service_def)
  have live: "fst (authenticate_live fixture_externals fixture_options fixture_directory ''alice'' ''wrong''
       (record_event (Cache_get ''user:alice'') (fixture_cached_service [''user:alice'' \<mapsto> old_record])))
     = Inl (LdapError ''InvalidCredentialsError'')"
    by code_simp
  have a: "fst (authenticate fixture_externals fixture_options fixture_directory ''alice'' ''guess'' True
          (fixture_cached_service [''user:alice'' \<mapsto> sentinel_record])) = Inr alice"
    using authenticate_cached_path [where pwd = "''guess''" and ext = fixture_externals and cache = True
        and s = "fixture_cached_service [''user:alice'' \<mapsto> sentinel_record]"
        and username = "''alice''" and opts = fixture_options and d = fixture_directory, OF _ h _ c]
    by (simp add: sentinel_record_def alice_def get_prop_def)
  have b: "fst (authenticate fixture_externals fixture_options fixture_directory ''alice'' ''wrong'' True
          (fixture_cached_service [''user:alice'' \<mapsto> old_record])) = Inl (LdapError ''InvalidCredentialsError'')"
    using authenticate_cached_path [where pwd = "''wrong''" and ext = fixture_externals and cache = True
        and s = "fixture_cached_service [''user:alice'' \<mapsto> old_record]"
        and username = "''alice''" and opts = fixture_options and d = fixture_directory, OF _ h _ c]
      live
    by (simp add: old_record_def get_prop_def fixture_externals_def LDAP_PASSWORD_NULL_def)
  show ?thesis
    using a b by simp
qed

text \<open>
  C2, as the code has it. After a hit, the refresh overwrites the cache exactly when
  the live authentication succeeds and the JSON text of its user differs from the one
  of the cached user; it then stores the live user and a fresh hash under \<open>user:\<close> and
  the account name of the live user. Whether the cached proof was the sentinel plays no
  part: when the texts are equal, or the live authentication fails, the cache stays as
  it was.
\<close>

theorem authenticate_refresh_overwrites:
  assumes "pwd \<noteq> []" and "cache" and "userCache s = Some c"
    and "c (''user:'' @ username) = Some cached" and "authenticate_cached ext pwd cached"
  shows "fst (authenticate ext opts d username pwd cache s) = Inr (user cached)
   \<and> userCache (snd (authenticate ext opts d username pwd cache s)) =
       (case fst (authenticateInternal ext opts d username pwd (record_event (Cache_get (''user:'' @ username)) s)) of
          Inl e \<Rightarrow> Some c
        | Inr u \<Rightarrow>
            if JSON_stringify u \<noteq> JSON_stringify (user cached)
            then Some (c(''user:'' @ template_text ext (get_prop u ''sAMAccountName'')
                         \<mapsto> \<lparr>user = u, password = hashSync ext pwd (salt s)\<rparr>))
            else Some c)"
proof -
  define s1 where "s1 = record_event (Cache_get (''user:'' @ username)) s"
  have a: "authenticate ext opts d username pwd cache s
      = (Inr (user cached), authenticate_refresh ext opts d username pwd cached s1)"
    using assms by (simp add: authenticate_def cache_get_def s1_def)
  obtain r s2 where r: "authenticateInternal ext opts d username pwd s1 = (r, s2)"
    by (cases "authenticateInternal ext opts d username pwd s1")
  have f: "userCache s2 = Some c \<and> salt s2 = salt s"
    using authenticateInternal_frame [of ext opts d username pwd s1] r assms(3)
    by (simp add: s1_def record_event_def)
  have "fst (authenticate ext opts d username pwd cache s) = Inr (user cached)
   \<and> userCache (snd (authenticate ext opts d username pwd cache s)) =
       (case fst (authenticateInternal ext opts d username pwd s1) of
          Inl e \<Rightarrow> Some c
        | Inr u \<Rightarrow>
            if JSON_stringify u \<noteq> JSON_stringify (user cached)
            then Some (c(''user:'' @ template_text ext (get_prop u ''sAMAccountName'')
                         \<mapsto> \<lparr>user = u, password = hashSync ext pwd (salt s)\<rparr>))
            else Some c)"
    using a r f
    by (auto simp: authenticate_refresh_def authenticate_to_cache_def cache_set_def record_event_def
        split: sum.splits)
  then show ?thesis
    by (simp add: s1_def)
qed

theorem authenticate_refresh_overwrites_witness:
  "authenticate_cached fixture_externals ''wonderland'' old_record
   \<and> fst (authenticate fixture_externals fixture_options fixture_directory ''alice'' ''wonderland'' True
          (fixture_cached_service [''user:alice'' \<mapsto> old_record])) = Inr (user old_record)
   \<and> userCache (snd (authenticate fixture_externals fixture_options fixture_directory ''alice'' ''wonderland'' True
          (fixture_cached_service [''user:alice'' \<mapsto> old_record])))
      = Some ([''user:alice'' \<mapsto> old_record](''user:alice'' \<mapsto> \<lparr>user = alice, password = ''salt#wonderland''\<rparr>))"
proof -
  have hit: "authenticate_cached fixture_externals ''wonderland'' old_record"
    by code_simp
  have c: "userCache (fixture_cached_service [''user:alice'' \<mapsto> old_record]) = Some [''user:alice'' \<mapsto> old_record]"
    by (simp add: fixture_cached_service_def)
  have live: "fst (authenticateInternal fixture_externals fixture_options fixture_directory ''alice'' ''wonderland''
       (record_event (Cache_get ''user:alice'') (fixture_cached_service [''user:alice'' \<mapsto> old_record])))
     = Inr alice"
    by code_simp
  have differs: "JSON_stringify alice \<noteq> JSON_stringify (user old_record)"
    by code_simp
  have key: "''user:'' @ template_text fixture_externals (get_prop alice ''sAMAccountName'') = ''user:alice''"
    by code_simp
  have hash: "hashSync fixture_externals ''wonderland''
      (salt (fixture_cached_service [''user:alice'' \<mapsto> old_record])) = ''salt#wonderland''"
    by (simp add: fixture_externals_def fixture_cached_service_def)
  show ?thesis
    using hit live differs key hash
      authenticate_refresh_overwrites [where pwd = "''wonderland''" and cache = True
        and s = "fixture_cached_service [''user:alice'' \<mapsto> old_record]"
        and username = "''alice''" and cached = old_record and ext = fixture_externals
        and opts = fixture_options and d = fixture_directory, OF _ _ c _ hit]
    by simp
qed

text \<open>
  C2 as the specification states it fails. The cache holds \<open>alice\<close> with the sentinel,
  the live authentication succeeds with the very same user, and the record with the
  sentinel is still in the cache afterwards: no fresh hash has been stored.
\<close>

theorem authenticate_refresh_sentinel_counterexample:
  "password sentinel_record = LDAP_PASSWORD_NULL
   \<and> fst (authenticate fixture_externals fixture_options fixture_directory ''alice'' ''wonderland'' True
          (fixture_cached_service [''user:alice'' \<mapsto> sentinel_record])) = Inr (user sentinel_record)
   \<and> fst (authenticateInternal fixture_externals fixture_options fixture_directory ''alice'' ''wonderland''
          (record_event (Cache_get ''user:alice'') (fixture_cached_service [''user:alice'' \<mapsto> sentinel_record])))
       = Inr (user sentinel_record)
   \<and> fst (cache_get ''user:alice''
          (snd (authenticate fixture_externals fixture_options fixture_directory ''alice'' ''wonderland'' True
                 (fixture_cached_service [''user:alice'' \<mapsto> sentinel_record])))) = Some sentinel_record
   \<and> sentinel_record \<noteq> \<lparr>user = alice, password = hashSync fixture_externals ''wonderland'' ''salt''\<rparr>"
  by code_simp

section \<open>Properties of \<open>modify\<close>\<close>

lemma modify_data:
  assumes "fst (adminBind opts d s) = Inr ok"
  shows "fst (snd (modify opts d dn data username pwd s)) = map skip_photo data"
proof -
  obtain s1 where "adminBind opts d s = (Inr ok, s1)"
    using assms by (cases "adminBind opts d s") auto
  then show ?thesis
    by (simp add: modify_def Let_def split: option.splits)
qed

lemma skip_photo_nth:
  "(if type (modification c) = ''thumbnailPhoto'' \<or> type (modification c) = ''jpegPhoto''
    then skip_photo c = c\<lparr>modification := (modification c)\<lparr>vals := VString ''...skipped...''\<rparr>\<rparr>
    else skip_photo c = c)"
  by (simp add: skip_photo_def)

text \<open>
  C10. Once the admin client is bound, \<open>modify\<close> leaves the array of the caller with
  the values of every \<open>thumbnailPhoto\<close> and \<open>jpegPhoto\<close> change replaced by the text
  \<open>...skipped...\<close> and every other change as it was, with and without a password and
  whatever the directory answers to the bind of the user and to the modification.
\<close>

theorem modify_redacts_photos:
  assumes "fst (adminBind opts d s) = Inr ok"
    and "data' = fst (snd (modify opts d dn data username pwd s))"
  shows "length data' = length data
   \<and> (\<forall>i < length data.
        if type (modification (data ! i)) = ''thumbnailPhoto'' \<or> type (modification (data ! i)) = ''jpegPhoto''
        then data' ! i = (data ! i)\<lparr>modification := (modification (data ! i))\<lparr>vals := VString ''...skipped...''\<rparr>\<rparr>
        else data' ! i = data ! i)"
proof -
  have "data' = map skip_photo data"
    using assms by (simp add: modify_data)
  then show ?thesis
    using skip_photo_nth by simp
qed

lemma fixture_adminBind: "fst (adminBind fixture_options fixture_directory fixture_service) = Inr True"
  by code_simp

theorem modify_redacts_photos_witness:
  "fst (modify fixture_options fixture_directory ''cn=alice,dc=example'' [photo_change, mail_change]
          (Some ''alice'') (Some ''wonderland'') fixture_service) = Inl (LdapError ''InsufficientAccessRightsError'')
   \<and> fst (snd (modify fixture_options fixture_directory ''cn=alice,dc=example'' [photo_change, mail_change]
          (Some ''alice'') (Some ''wonderland'') fixture_service)) ! 0
       = photo_change\<lparr>modification := (modification photo_change)\<lparr>vals := VString ''...skipped...''\<rparr>\<rparr>
   \<and> fst (modify fixture_options fixture_directory ''cn=alice,dc=example'' [photo_change, mail_change]
          (Some ''alice'') None fixture_service) = Inr True
   \<and> fst (snd (modify fixture_options fixture_directory ''cn=alice,dc=example'' [photo_change, mail_change]
          (Some ''alice'') None fixture_service)) ! 0
       = photo_change\<lparr>modification := (modification photo_change)\<lparr>vals := VString ''...skipped...''\<rparr>\<rparr>
   \<and> fst (snd (modify fixture_options fixture_directory ''cn=alice,dc=example'' [photo_change, mail_change]
          (Some ''alice'') None fixture_service)) ! 1 = mail_change"
proof -
  have r1: "fst (modify fixture_options fixture_directory ''cn=alice,dc=example'' [photo_change, mail_change]
          (Some ''alice'') (Some ''wonderland'') fixture_service) = Inl (LdapError ''InsufficientAccessRightsError'')"
    by code_simp
  have r2: "fst (modify fixture_options fixture_directory ''cn=alice,dc=example'' [photo_change, mail_change]
          (Some ''alice'') None fixture_service) = Inr True"
    by code_simp
  have t: "type (modification photo_change) = ''thumbnailPhoto''"
      "type (modification mail_change) = ''mail''"
    by (simp_all add: photo_change_def mail_change_def)
  show ?thesis
    using r1 r2 t
      modify_redacts_photos [OF fixture_adminBind refl, where dn = "''cn=alice,dc=example''"
        and data = "[photo_change, mail_change]" and username = "Some ''alice''" and pwd = "Some ''wonderland''"]
      modify_redacts_photos [OF fixture_adminBind refl, where dn = "''cn=alice,dc=example''"
        and data = "[photo_change, mail_change]" and username = "Some ''alice''" and pwd = None]
    by (simp add: All_less_Suc)
qed

text \<open>
  C1 at two inputs. First, a modification by the admin client succeeds for \<open>alice\<close>,
  whose records are cached under \<open>dn:cn=alice,dc=example\<close> and \<open>user:alice\<close>: the
  cache is asked to delete the keys \<open>cn=alice,dc=example\<close> and \<open>alice\<close>, both records
  stay, and \<open>searchByDN\<close> answers from the cache without a search. Second, a
  modification with a password is rejected by the directory: \<open>modify\<close> fails and has
  deleted the keys all the same, here the record that was stored under \<open>alice\<close>.
\<close>

theorem modify_cache_reset_defects:
  "fst (modify fixture_options fixture_directory ''cn=alice,dc=example'' [mail_change] (Some ''alice'') None
          (fixture_cached_service [''dn:cn=alice,dc=example'' \<mapsto> sentinel_record, ''user:alice'' \<mapsto> sentinel_record]))
     = Inr True
   \<and> trace (snd (snd (modify fixture_options fixture_directory ''cn=alice,dc=example'' [mail_change]
          (Some ''alice'') None
          (fixture_cached_service [''dn:cn=alice,dc=example'' \<mapsto> sentinel_record, ''user:alice'' \<mapsto> sentinel_record]))))
     = [Admin_bind ''cn=admin,dc=example'' ''secret'', Admin_modify ''cn=alice,dc=example'' [mail_change],
        Cache_del ''cn=alice,dc=example'', Cache_del ''alice'']
   \<and> fst (cache_get ''user:alice'' (snd (snd (modify fixture_options fixture_directory ''cn=alice,dc=example''
          [mail_change] (Some ''alice'') None
          (fixture_cached_service [''dn:cn=alice,dc=example'' \<mapsto> sentinel_record, ''user:alice'' \<mapsto> sentinel_record])))))
     = Some sentinel_record
   \<and> fst (searchByDN fixture_externals fixture_options fixture_directory ''cn=alice,dc=example'' True
          (snd (snd (modify fixture_options fixture_directory ''cn=alice,dc=example'' [mail_change]
             (Some ''alice'') None
             (fixture_cached_service [''dn:cn=alice,dc=example'' \<mapsto> sentinel_record, ''user:alice'' \<mapsto> sentinel_record])))))
     = Inr alice
   \<and> trace (snd (searchByDN fixture_externals fixture_options fixture_directory ''cn=alice,dc=example'' True
          (snd (snd (modify fixture_options fixture_directory ''cn=alice,dc=example'' [mail_change]
             (Some ''alice'') None
             (fixture_cached_service [''dn:cn=alice,dc=example'' \<mapsto> sentinel_record, ''user:alice'' \<mapsto> sentinel_record]))))))
     = [Admin_bind ''cn=admin,dc=example'' ''secret'', Admin_modify ''cn=alice,dc=example'' [mail_change],
        Cache_del ''cn=alice,dc=example'', Cache_del ''alice'', Cache_get ''dn:cn=alice,dc=example'']
   \<and> fst (modify fixture_options fixture_directory ''cn=alice,dc=example'' [mail_change] (Some ''alice'')
          (Some ''wonderland'') (fixture_cached_service [''alice'' \<mapsto> sentinel_record]))
     = Inl (LdapError ''InsufficientAccessRightsError'')
   \<and> trace (snd (snd (modify fixture_options fixture_directory ''cn=alice,dc=example'' [mail_change]
          (Some ''alice'') (Some ''wonderland'') (fixture_cached_service [''alice'' \<mapsto> sentinel_record]))))
     = [Admin_bind ''cn=admin,dc=example'' ''secret'',
        User_bind (Some (AString ''cn=alice,dc=example'')) ''wonderland'',
        User_modify ''cn=alice,dc=example'' [mail_change],
        Cache_del ''cn=alice,dc=example'', Cache_del ''alice'']
   \<and> fst (cache_get ''alice'' (fixture_cached_service [''alice'' \<mapsto> sentinel_record])) = Some sentinel_record
   \<and> fst (cache_get ''alice'' (snd (snd (modify fixture_options fixture_directory ''cn=alice,dc=example''
          [mail_change] (Some ''alice'') (Some ''wonderland'')
          (fixture_cached_service [''alice'' \<mapsto> sentinel_record]))))) = None"
  by code_simp

end
